theory Spec2Isabelle
  imports Complex_Main "HOL-Library.AList"
begin

section \<open>Values of the platform\<close>

text \<open>
  A JavaScript string is modelled as a \<^typ>\<open>string\<close>: one \<^typ>\<open>char\<close> per code unit, for
  code units below 256. A JSON document is a tree. An object keeps its members in
  insertion order and is read through \<^const>\<open>map_of\<close>; a number is kept as the decimal
  literal that denotes it (the double it is rounded to is not modelled).
\<close>

datatype json =
    JNull
  | JBool bool
  | JNum string
  | JStr string
  | JArr "json list"
  | JObj "(string \<times> json) list"

text \<open>Truthiness of a value of type \<open>string | undefined\<close>: defined and not empty.\<close>

definition truthy :: "string option \<Rightarrow> bool" where
  "truthy s = (case s of None \<Rightarrow> False | Some x \<Rightarrow> x \<noteq> [])"

text \<open>
  Truthiness of a value: \<open>null\<close>, \<open>false\<close>, the number zero and the empty string are falsy,
  every other value is truthy, each array and each object also. A number is zero when the
  mantissa of its literal has no digit other than \<open>0\<close>.
\<close>

definition isZeroLiteral :: "string \<Rightarrow> bool" where
  "isZeroLiteral lexeme =
     list_all (\<lambda>c. c \<notin> set ''123456789'')
       (takeWhile (\<lambda>c. c \<noteq> CHR ''e'' \<and> c \<noteq> CHR ''E'') lexeme)"

fun truthyValue :: "json \<Rightarrow> bool" where
  "truthyValue JNull = False"
| "truthyValue (JBool b) = b"
| "truthyValue (JNum lexeme) = (\<not> isZeroLiteral lexeme)"
| "truthyValue (JStr s) = (s \<noteq> [])"
| "truthyValue (JArr xs) = True"
| "truthyValue (JObj kvs) = True"

text \<open>\<open>v || d\<close> for a value \<open>v\<close> that may be \<open>undefined\<close>.\<close>

definition valueOrElse :: "json option \<Rightarrow> json \<Rightarrow> json" where
  "valueOrElse v d = (case v of None \<Rightarrow> d | Some x \<Rightarrow> if truthyValue x then x else d)"

text \<open>\<open>s || d\<close> for \<open>s\<close> of type \<open>string | undefined | null\<close>.\<close>

definition orElse :: "string option \<Rightarrow> string \<Rightarrow> string" where
  "orElse s d = (case s of None \<Rightarrow> d | Some x \<Rightarrow> if x = [] then d else x)"

text \<open>\<open>Array.prototype.join\<close> on an array of strings.\<close>

fun join :: "string \<Rightarrow> string list \<Rightarrow> string" where
  "join sep [] = []"
| "join sep [x] = x"
| "join sep (x # y # ys) = x @ sep @ join sep (y # ys)"

text \<open>The decimal rendering of a non-negative integer inside a template literal.\<close>

definition digit_char :: "nat \<Rightarrow> char" where
  "digit_char d = ''0123456789'' ! d"

function show_nat :: "nat \<Rightarrow> string" where
  "show_nat n = (if n < 10 then [digit_char n] else show_nat (n div 10) @ [digit_char (n mod 10)])"
  by pat_completeness auto
termination
  by (relation "measure (\<lambda>n. n)") auto

declare show_nat.simps [simp del]

section \<open>The host's conversation model and the wire messages\<close>

record FunctionCall =
  fc_id :: "string option"
  fc_name :: "string option"
  fc_args :: "json option"

record FunctionResponse =
  fr_id :: "string option"
  fr_name :: "string option"
  fr_response :: "json option"

text \<open>
  A \<open>Part\<close> is an object with optional keys; \<open>'text' in part\<close> is \<open>part_text p \<noteq> None\<close>,
  and likewise for the other two keys. A part may carry several keys, or none
  of the three.
\<close>

record Part =
  part_text :: "string option"
  functionCall :: "FunctionCall option"
  functionResponse :: "FunctionResponse option"

text \<open>The parts with a single key.\<close>

definition textPart :: "string \<Rightarrow> Part" where
  "textPart s = \<lparr>part_text = Some s, functionCall = None, functionResponse = None\<rparr>"

definition callPart :: "FunctionCall \<Rightarrow> Part" where
  "callPart fc = \<lparr>part_text = None, functionCall = Some fc, functionResponse = None\<rparr>"

definition resultPart :: "FunctionResponse \<Rightarrow> Part" where
  "resultPart fr = \<lparr>part_text = None, functionCall = None, functionResponse = Some fr\<rparr>"

record Content =
  role :: "string option"
  parts :: "Part list option"

record ToolCall =
  tc_id :: string
  tc_type :: string
  tc_name :: "string option"
  tc_arguments :: string

text \<open>\<open>OpenAILikeMessage\<close>; a \<open>null\<close> or undefined \<open>content\<close> is \<open>None\<close>.\<close>

record OpenAILikeMessage =
  m_role :: "string option"
  m_content :: "string option"
  m_tool_calls :: "ToolCall list option"
  m_tool_call_id :: "string option"

subsection \<open>toContents\<close>

text \<open>
  \<open>ContentListUnion\<close> is \<open>Content | Content[] | PartUnion | PartUnion[]\<close> with
  \<open>PartUnion = Part | string\<close>. The type has no array as an element of an array, so the
  \<open>throw\<close> of \<open>toContent\<close> has no input.
\<close>

datatype ContentOrPart = IsString string | IsContent Content | IsPart Part

datatype ContentListUnion = Single ContentOrPart | Many "ContentOrPart list"

definition noKeysPart :: Part where
  "noKeysPart = \<lparr>part_text = None, functionCall = None, functionResponse = None\<rparr>"

text \<open>
  An object of type \<open>Content\<close> without the key \<open>parts\<close> takes the last branch: it is
  wrapped as if it were a part, and as a part it has none of the three keys.
\<close>

fun toContent :: "ContentOrPart \<Rightarrow> Content" where
  "toContent (IsString s) =
     \<lparr>role = Some ''user'',
      parts = Some [\<lparr>part_text = Some s, functionCall = None, functionResponse = None\<rparr>]\<rparr>"
| "toContent (IsContent c) =
     (if parts c \<noteq> None then c else \<lparr>role = Some ''user'', parts = Some [noKeysPart]\<rparr>)"
| "toContent (IsPart p) = \<lparr>role = Some ''user'', parts = Some [p]\<rparr>"

fun toContents :: "ContentListUnion \<Rightarrow> Content list" where
  "toContents (Many cs) = map toContent cs"
| "toContents (Single c) = [toContent c]"

subsection \<open>convertToOpenAIMessages\<close>

text \<open>
  \<open>JSON.stringify\<close> is the platform's and is a parameter, \<open>stringify\<close>. \<open>Date.now()\<close>
  is a reading of the clock: \<open>now index\<close> is the reading taken while the function
  call at position \<open>index\<close> is mapped.
\<close>

definition mapRole :: "string option \<Rightarrow> string option" where
  "mapRole r = (if r = Some ''model'' then Some ''assistant'' else r)"

definition toolCallOfPart :: "(json \<Rightarrow> string) \<Rightarrow> (nat \<Rightarrow> nat) \<Rightarrow> nat \<times> Part \<Rightarrow> ToolCall" where
  "toolCallOfPart stringify now ip =
     (let index = fst ip; fc = the (functionCall (snd ip)) in
      \<lparr>tc_id = (if truthy (fc_id fc) then the (fc_id fc)
                else ''call_'' @ show_nat (now index) @ ''_'' @ show_nat index),
       tc_type = ''function'',
       tc_name = fc_name fc,
       tc_arguments = stringify (valueOrElse (fc_args fc) (JObj []))\<rparr>)"

definition toolMessageOfPart :: "(json \<Rightarrow> string) \<Rightarrow> Part \<Rightarrow> OpenAILikeMessage" where
  "toolMessageOfPart stringify p =
     (let fr = the (functionResponse p) in
      \<lparr>m_role = Some ''tool'',
       m_content = map_option stringify (fr_response fr),
       m_tool_calls = None,
       m_tool_call_id = fr_id fr\<rparr>)"

text \<open>The body of the loop over the turns: the messages pushed for one turn.\<close>

definition convertContent ::
  "(json \<Rightarrow> string) \<Rightarrow> (nat \<Rightarrow> nat) \<Rightarrow> Content \<Rightarrow> OpenAILikeMessage list" where
  "convertContent stringify now content =
     (let role' = mapRole (role content);
          parts' = (case parts content of None \<Rightarrow> [] | Some ps \<Rightarrow> ps);
          functionCalls = filter (\<lambda>p. functionCall p \<noteq> None) parts';
          functionResponses = filter (\<lambda>p. functionResponse p \<noteq> None) parts';
          textParts = filter (\<lambda>p. part_text p \<noteq> None) parts'
      in
      if length functionCalls > 0 then
        (let tool_calls = map (toolCallOfPart stringify now) (enumerate 0 functionCalls);
             combinedText = join [CHR 0x0A] (map (\<lambda>p. the (part_text p)) textParts)
         in [\<lparr>m_role = role',
              m_content = (if combinedText = [] then None else Some combinedText),
              m_tool_calls = Some tool_calls,
              m_tool_call_id = None\<rparr>])
      else if length functionResponses > 0 then
        map (toolMessageOfPart stringify) functionResponses
      else if length textParts > 0 then
        (let combinedText = join [CHR 0x0A] (map (\<lambda>p. the (part_text p)) textParts)
         in [\<lparr>m_role = role',
              m_content = Some combinedText,
              m_tool_calls = None,
              m_tool_call_id = None\<rparr>])
      else [])"

text \<open>
  The loop \<open>for (const content of contents)\<close> with its accumulator \<open>messages\<close>;
  \<open>now k\<close> is the clock during turn \<open>k\<close>.
\<close>

fun convertLoop ::
  "(json \<Rightarrow> string) \<Rightarrow> (nat \<Rightarrow> nat \<Rightarrow> nat) \<Rightarrow> nat \<Rightarrow> OpenAILikeMessage list \<Rightarrow> Content list
     \<Rightarrow> OpenAILikeMessage list" where
  "convertLoop stringify now k messages [] = messages"
| "convertLoop stringify now k messages (c # cs) =
     convertLoop stringify now (Suc k) (messages @ convertContent stringify (now k) c) cs"

definition convertToOpenAIMessages ::
  "(json \<Rightarrow> string) \<Rightarrow> (nat \<Rightarrow> nat \<Rightarrow> nat) \<Rightarrow> Content list \<Rightarrow> OpenAILikeMessage list" where
  "convertToOpenAIMessages stringify now contents = convertLoop stringify now 0 [] contents"

subsection \<open>countTokens\<close>

definition totalTextOf :: "OpenAILikeMessage list \<Rightarrow> string" where
  "totalTextOf messages = join '' '' (map (\<lambda>m. orElse (m_content m) []) messages)"

definition countTokens ::
  "(json \<Rightarrow> string) \<Rightarrow> (nat \<Rightarrow> nat \<Rightarrow> nat) \<Rightarrow> ContentListUnion \<Rightarrow> nat" where
  "countTokens stringify now contents =
     (let contentsArray = toContents contents;
          messages = convertToOpenAIMessages stringify now contentsArray;
          totalText = totalTextOf messages
      in nat \<lceil>(of_nat (length totalText) :: rat) / 4\<rceil>)"


section \<open>The platform's JSON.stringify, and a clock\<close>

text \<open>
  \<open>JSON.stringify\<close> on a JSON tree, for the inputs that are evaluated; the converter
  takes the serialiser as a parameter. \<open>clock0\<close> is a clock that stands still.
\<close>

definition hexDigit :: "nat \<Rightarrow> char" where
  "hexDigit d = ''0123456789abcdef'' ! d"

definition quoteJSONChar :: "char \<Rightarrow> string" where
  "quoteJSONChar c =
     (if c = CHR 0x22 then [CHR 0x5C, CHR 0x22]
      else if c = CHR 0x5C then [CHR 0x5C, CHR 0x5C]
      else if c = CHR 0x08 then [CHR 0x5C, CHR ''b'']
      else if c = CHR 0x0C then [CHR 0x5C, CHR ''f'']
      else if c = CHR 0x0A then [CHR 0x5C, CHR ''n'']
      else if c = CHR 0x0D then [CHR 0x5C, CHR ''r'']
      else if c = CHR 0x09 then [CHR 0x5C, CHR ''t'']
      else if (of_char c :: nat) < 32
        then [CHR 0x5C, CHR ''u'', CHR ''0'', CHR ''0'',
              hexDigit (of_char c div 16), hexDigit (of_char c mod 16)]
      else [c])"

definition quoteJSONString :: "string \<Rightarrow> string" where
  "quoteJSONString s = [CHR 0x22] @ concat (map quoteJSONChar s) @ [CHR 0x22]"

fun JSON_stringify :: "json \<Rightarrow> string" where
  "JSON_stringify JNull = ''null''"
| "JSON_stringify (JBool b) = (if b then ''true'' else ''false'')"
| "JSON_stringify (JNum n) = n"
| "JSON_stringify (JStr s) = quoteJSONString s"
| "JSON_stringify (JArr xs) = ''['' @ join '','' (map JSON_stringify xs) @ '']''"
| "JSON_stringify (JObj kvs) =
     ''{'' @ join '','' (map (\<lambda>(k, v). quoteJSONString k @ '':'' @ JSON_stringify v) kvs) @ ''}''"

definition clock0 :: "nat \<Rightarrow> nat \<Rightarrow> nat" where
  "clock0 k index = 1700000000000"

text \<open>A text turn: at least one text part, no function-call and no function-result part.\<close>

definition textOnlyTurn :: "Content \<Rightarrow> bool" where
  "textOnlyTurn c =
     (case parts c of None \<Rightarrow> False
      | Some ps \<Rightarrow> (\<exists>p \<in> set ps. part_text p \<noteq> None) \<and>
                   (\<forall>p \<in> set ps. functionCall p = None \<and> functionResponse p = None))"




section \<open>The platform's JSON.parse\<close>

text \<open>
  \<open>JSON.parse\<close> is the platform's. The operations of the adapter take it as a
  parameter \<open>parse\<close>, where \<open>None\<close> is the \<open>SyntaxError\<close> it throws, and what is proved for
  every \<open>parse\<close> holds whatever the platform's parser accepts. For the inputs that are
  evaluated, \<open>JSON_parse\<close> below reads the JSON grammar (ECMA-404): a scanner over the
  characters followed by a pushdown recogniser over the tokens, each a single pass over
  its input. A \<open>u\<close> escape above 255 denotes a code unit that the strings of the model do not
  have, and \<open>JSON_parse\<close> has no value for a text with one.
\<close>

datatype token =
    TLBrace | TRBrace | TLBrack | TRBrack | TColon | TComma
  | TString string | TNumber string | TTrue | TFalse | TNull

datatype lexState =
    LDefault
  | LString string
  | LEscape string
  | LUnicode string string
  | LNumber string
  | LWord string

definition isJsonWs :: "char \<Rightarrow> bool" where
  "isJsonWs c = (c = CHR '' '' \<or> c = CHR 0x09 \<or> c = CHR 0x0A \<or> c = CHR 0x0D)"

definition isDigit :: "char \<Rightarrow> bool" where
  "isDigit c = (c \<in> set ''0123456789'')"

definition isLowerAlpha :: "char \<Rightarrow> bool" where
  "isLowerAlpha c = (c \<in> set ''abcdefghijklmnopqrstuvwxyz'')"

definition isHexDigit :: "char \<Rightarrow> bool" where
  "isHexDigit c = (c \<in> set ''0123456789abcdefABCDEF'')"

definition hexValue :: "char \<Rightarrow> nat" where
  "hexValue c =
     (if isDigit c then of_char c - 48
      else if c \<in> set ''abcdef'' then of_char c - 87
      else of_char c - 55)"

definition isNumberChar :: "char \<Rightarrow> bool" where
  "isNumberChar c =
     (isDigit c \<or> c = CHR ''-'' \<or> c = CHR ''+'' \<or> c = CHR ''.'' \<or> c = CHR ''e'' \<or> c = CHR ''E'')"

text \<open>The grammar of a number: \<open>-? (0 | [1-9][0-9]*) (. [0-9]+)? ([eE] [+-]? [0-9]+)?\<close>.\<close>

definition validExponent :: "string \<Rightarrow> bool" where
  "validExponent r =
     (case r of
        [] \<Rightarrow> True
      | c # r1 \<Rightarrow>
          if c = CHR ''e'' \<or> c = CHR ''E'' then
            (let r2 = (case r1 of [] \<Rightarrow> []
                       | d # r3 \<Rightarrow> if d = CHR ''+'' \<or> d = CHR ''-'' then r3 else r1)
             in r2 \<noteq> [] \<and> list_all isDigit r2)
          else False)"

definition validFraction :: "string \<Rightarrow> bool" where
  "validFraction r =
     (case r of
        [] \<Rightarrow> True
      | c # r1 \<Rightarrow>
          if c = CHR ''.'' then takeWhile isDigit r1 \<noteq> [] \<and> validExponent (dropWhile isDigit r1)
          else validExponent r)"

definition validNumber :: "string \<Rightarrow> bool" where
  "validNumber s =
     (let s1 = (case s of [] \<Rightarrow> [] | c # r \<Rightarrow> if c = CHR ''-'' then r else s);
          intPart = takeWhile isDigit s1
      in (case intPart of
            [] \<Rightarrow> False
          | d # ds \<Rightarrow> (if d = CHR ''0'' then ds = [] else True) \<and>
                      validFraction (dropWhile isDigit s1)))"

definition lexDefault :: "char \<Rightarrow> token list \<Rightarrow> (lexState \<times> token list) option" where
  "lexDefault c toks =
     (if isJsonWs c then Some (LDefault, toks)
      else if c = CHR ''{'' then Some (LDefault, TLBrace # toks)
      else if c = CHR ''}'' then Some (LDefault, TRBrace # toks)
      else if c = CHR ''['' then Some (LDefault, TLBrack # toks)
      else if c = CHR '']'' then Some (LDefault, TRBrack # toks)
      else if c = CHR '':'' then Some (LDefault, TColon # toks)
      else if c = CHR '','' then Some (LDefault, TComma # toks)
      else if c = CHR 0x22 then Some (LString [], toks)
      else if c = CHR ''-'' \<or> isDigit c then Some (LNumber [c], toks)
      else if isLowerAlpha c then Some (LWord [c], toks)
      else None)"

definition finishNumber :: "string \<Rightarrow> token list \<Rightarrow> token list option" where
  "finishNumber acc toks = (if validNumber (rev acc) then Some (TNumber (rev acc) # toks) else None)"

definition finishWord :: "string \<Rightarrow> token list \<Rightarrow> token list option" where
  "finishWord acc toks =
     (if rev acc = ''true'' then Some (TTrue # toks)
      else if rev acc = ''false'' then Some (TFalse # toks)
      else if rev acc = ''null'' then Some (TNull # toks)
      else None)"

definition unescape :: "char \<Rightarrow> char option" where
  "unescape c =
     (if c = CHR 0x22 \<or> c = CHR 0x5C \<or> c = CHR ''/'' then Some c
      else if c = CHR ''b'' then Some (CHR 0x08)
      else if c = CHR ''f'' then Some (CHR 0x0C)
      else if c = CHR ''n'' then Some (CHR 0x0A)
      else if c = CHR ''r'' then Some (CHR 0x0D)
      else if c = CHR ''t'' then Some (CHR 0x09)
      else None)"

text \<open>One character of the scanner; the accumulators and the token list are reversed.\<close>

fun lexStep :: "lexState \<times> token list \<Rightarrow> char \<Rightarrow> (lexState \<times> token list) option" where
  "lexStep (LDefault, toks) c = lexDefault c toks"
| "lexStep (LString acc, toks) c =
     (if c = CHR 0x22 then Some (LDefault, TString (rev acc) # toks)
      else if c = CHR 0x5C then Some (LEscape acc, toks)
      else if (of_char c :: nat) < 32 then None
      else Some (LString (c # acc), toks))"
| "lexStep (LEscape acc, toks) c =
     (if c = CHR ''u'' then Some (LUnicode acc [], toks)
      else (case unescape c of None \<Rightarrow> None | Some d \<Rightarrow> Some (LString (d # acc), toks)))"
| "lexStep (LUnicode acc ds, toks) c =
     (if \<not> isHexDigit c then None
      else if length ds < 3 then Some (LUnicode acc (c # ds), toks)
      else (let n = foldl (\<lambda>a d. 16 * a + hexValue d) 0 (rev (c # ds))
            in if n < 256 then Some (LString (char_of n # acc), toks) else None))"
| "lexStep (LNumber acc, toks) c =
     (if isNumberChar c then Some (LNumber (c # acc), toks)
      else (case finishNumber acc toks of None \<Rightarrow> None | Some toks' \<Rightarrow> lexDefault c toks'))"
| "lexStep (LWord acc, toks) c =
     (if isLowerAlpha c then Some (LWord (c # acc), toks)
      else (case finishWord acc toks of None \<Rightarrow> None | Some toks' \<Rightarrow> lexDefault c toks'))"

fun lexEnd :: "lexState \<times> token list \<Rightarrow> token list option" where
  "lexEnd (LDefault, toks) = Some toks"
| "lexEnd (LNumber acc, toks) = finishNumber acc toks"
| "lexEnd (LWord acc, toks) = finishWord acc toks"
| "lexEnd (_, toks) = None"

text \<open>A left fold that stops at the first failure.\<close>

fun foldOption :: "('s \<Rightarrow> 'a \<Rightarrow> 's option) \<Rightarrow> 's \<Rightarrow> 'a list \<Rightarrow> 's option" where
  "foldOption f s [] = Some s"
| "foldOption f s (x # xs) = (case f s x of None \<Rightarrow> None | Some s' \<Rightarrow> foldOption f s' xs)"

definition tokenize :: "string \<Rightarrow> token list option" where
  "tokenize s =
     (case foldOption lexStep (LDefault, []) s of
        None \<Rightarrow> None
      | Some st \<Rightarrow> map_option rev (lexEnd st))"

datatype frame = FArr "json list" | FObj "(string \<times> json) list" "string option"

datatype phase =
    PValue | PValueOrClose | PKeyOrClose | PKey | PColon | PCommaOrClose | PDone json

text \<open>A repeated key keeps its first place and takes its last value.\<close>

definition mkObject :: "(string \<times> json) list \<Rightarrow> json" where
  "mkObject kvs = JObj (foldl (\<lambda>acc kv. AList.update (fst kv) (snd kv) acc) [] kvs)"

fun pushValue :: "json \<Rightarrow> frame list \<Rightarrow> (phase \<times> frame list) option" where
  "pushValue v [] = Some (PDone v, [])"
| "pushValue v (FArr xs # st) = Some (PCommaOrClose, FArr (v # xs) # st)"
| "pushValue v (FObj kvs (Some k) # st) = Some (PCommaOrClose, FObj ((k, v) # kvs) None # st)"
| "pushValue v (FObj kvs None # st) = None"

fun startValue :: "token \<Rightarrow> frame list \<Rightarrow> (phase \<times> frame list) option" where
  "startValue TLBrack st = Some (PValueOrClose, FArr [] # st)"
| "startValue TLBrace st = Some (PKeyOrClose, FObj [] None # st)"
| "startValue (TString s) st = pushValue (JStr s) st"
| "startValue (TNumber n) st = pushValue (JNum n) st"
| "startValue TTrue st = pushValue (JBool True) st"
| "startValue TFalse st = pushValue (JBool False) st"
| "startValue TNull st = pushValue JNull st"
| "startValue _ st = None"

fun closeArray :: "frame list \<Rightarrow> (phase \<times> frame list) option" where
  "closeArray (FArr xs # st) = pushValue (JArr (rev xs)) st"
| "closeArray _ = None"

fun closeObject :: "frame list \<Rightarrow> (phase \<times> frame list) option" where
  "closeObject (FObj kvs None # st) = pushValue (mkObject (rev kvs)) st"
| "closeObject _ = None"

fun startKey :: "token \<Rightarrow> frame list \<Rightarrow> (phase \<times> frame list) option" where
  "startKey (TString k) (FObj kvs None # st) = Some (PColon, FObj kvs (Some k) # st)"
| "startKey _ _ = None"

fun parseStep :: "phase \<times> frame list \<Rightarrow> token \<Rightarrow> (phase \<times> frame list) option" where
  "parseStep (PValue, st) t = startValue t st"
| "parseStep (PValueOrClose, st) t = (if t = TRBrack then closeArray st else startValue t st)"
| "parseStep (PKeyOrClose, st) t = (if t = TRBrace then closeObject st else startKey t st)"
| "parseStep (PKey, st) t = startKey t st"
| "parseStep (PColon, st) t = (if t = TColon then Some (PValue, st) else None)"
| "parseStep (PCommaOrClose, st) t =
     (if t = TComma then
        (case st of
           [] \<Rightarrow> None
         | FArr xs # st' \<Rightarrow> Some (PValue, st)
         | FObj kvs k # st' \<Rightarrow> Some (PKey, st))
      else if t = TRBrack then closeArray st
      else if t = TRBrace then closeObject st
      else None)"
| "parseStep (PDone v, st) t = None"

definition JSON_parse :: "string \<Rightarrow> json option" where
  "JSON_parse s =
     (case tokenize s of
        None \<Rightarrow> None
      | Some toks \<Rightarrow>
          (case foldOption parseStep (PValue, []) toks of
             Some (PDone v, []) \<Rightarrow> Some v
           | _ \<Rightarrow> None))"

section \<open>From the wire response to the host response\<close>

record Usage =
  prompt_tokens :: int
  completion_tokens :: int
  total_tokens :: int

record ResponseMessage =
  rm_content :: "string option"
  rm_tool_calls :: "ToolCall list option"

record Choice =
  ch_message :: ResponseMessage
  ch_finish_reason :: string

record OpenAILikeResponse =
  r_choices :: "Choice list"
  r_usage :: Usage

record UsageMetadata =
  promptTokenCount :: int
  candidatesTokenCount :: int
  totalTokenCount :: int

text \<open>
  A candidate of a \<open>GenerateContentResponse\<close>: \<open>content.parts\<close>, \<open>content.role\<close>,
  \<open>finishReason\<close> and \<open>index\<close>; \<open>safetyRatings\<close> is always the empty array.
\<close>

record Candidate =
  c_parts :: "Part list"
  c_role :: string
  finishReason :: "string option"
  c_index :: nat

record GenerateContentResponse =
  candidates :: "Candidate list"
  functionCalls :: "FunctionCall list option"
  usageMetadata :: "UsageMetadata option"

text \<open>
  What is thrown: the \<open>Error\<close> for a response without choices, and the \<open>SyntaxError\<close> of
  \<open>JSON.parse\<close>, with the text it was given.
\<close>

datatype error = NoChoices | SyntaxError string

text \<open>\<open>Array.prototype.map\<close> with a callback that may throw: the first throw ends the map.\<close>

fun mapResult :: "('a \<Rightarrow> error + 'b) \<Rightarrow> 'a list \<Rightarrow> error + 'b list" where
  "mapResult f [] = Inr []"
| "mapResult f (x # xs) =
     (case f x of
        Inl e \<Rightarrow> Inl e
      | Inr y \<Rightarrow> (case mapResult f xs of Inl e \<Rightarrow> Inl e | Inr ys \<Rightarrow> Inr (y # ys)))"

text \<open>\<open>JSON.parse(text || '{}')\<close>.\<close>

definition parseArguments :: "(string \<Rightarrow> json option) \<Rightarrow> string option \<Rightarrow> error + json" where
  "parseArguments parse arguments =
     (let text = orElse arguments ''{}'' in
      case parse text of None \<Rightarrow> Inl (SyntaxError text) | Some v \<Rightarrow> Inr v)"

definition functionCallOfToolCall ::
  "(string \<Rightarrow> json option) \<Rightarrow> ToolCall \<Rightarrow> error + FunctionCall" where
  "functionCallOfToolCall parse toolCall =
     (case parseArguments parse (Some (tc_arguments toolCall)) of
        Inl e \<Rightarrow> Inl e
      | Inr v \<Rightarrow> Inr \<lparr>fc_id = Some (tc_id toolCall), fc_name = tc_name toolCall, fc_args = Some v\<rparr>)"

definition candidateOf :: "Part list \<Rightarrow> string option \<Rightarrow> Candidate" where
  "candidateOf ps reason = \<lparr>c_parts = ps, c_role = ''model'', finishReason = reason, c_index = 0\<rparr>"

text \<open>
  The two maps over \<open>tool_calls\<close> parse each argument string twice; the second pass
  builds the \<open>functionCalls\<close> property. The tool-call branch returns before the usage
  counters are copied.
\<close>

definition convertToGeminiResponse ::
  "(string \<Rightarrow> json option) \<Rightarrow> OpenAILikeResponse \<Rightarrow> error + GenerateContentResponse" where
  "convertToGeminiResponse parse response =
     (case r_choices response of
        [] \<Rightarrow> Inl NoChoices
      | choice # _ \<Rightarrow>
          (let message = ch_message choice in
           if (case rm_tool_calls message of None \<Rightarrow> False | Some tcs \<Rightarrow> length tcs > 0) then
             (let tcs = the (rm_tool_calls message);
                  parts0 = (if truthy (rm_content message)
                            then [textPart (the (rm_content message))] else [])
              in case mapResult (functionCallOfToolCall parse) tcs of
                   Inl e \<Rightarrow> Inl e
                 | Inr functionCalls' \<Rightarrow>
                     (case mapResult (functionCallOfToolCall parse) tcs of
                        Inl e \<Rightarrow> Inl e
                      | Inr functionCallsArray \<Rightarrow>
                          Inr \<lparr>candidates =
                                 [candidateOf (parts0 @ map callPart functionCalls')
                                    (Some (ch_finish_reason choice))],
                               functionCalls = Some functionCallsArray,
                               usageMetadata = None\<rparr>))
           else
             Inr \<lparr>candidates =
                    [candidateOf [textPart (orElse (rm_content message) [])]
                       (Some (ch_finish_reason choice))],
                  functionCalls = None,
                  usageMetadata =
                    Some \<lparr>promptTokenCount = prompt_tokens (r_usage response),
                          candidatesTokenCount = completion_tokens (r_usage response),
                          totalTokenCount = total_tokens (r_usage response)\<rparr>\<rparr>))"

section \<open>The stream adapter\<close>

record FunctionDelta =
  fd_name :: "string option"
  fd_arguments :: "string option"

record ToolCallDelta =
  tcd_index :: "int option"
  tcd_id :: "string option"
  tcd_type :: "string option"
  tcd_function :: "FunctionDelta option"

record Delta =
  d_content :: "string option"
  d_tool_calls :: "ToolCallDelta list option"

record StreamChoice =
  sc_delta :: Delta
  sc_finish_reason :: "string option"

text \<open>\<open>OpenAILikeStreamChunk\<close>; the generator reads \<open>choices\<close> only, and guards its absence.\<close>

record OpenAILikeStreamChunk =
  sc_choices :: "StreamChoice list option"

record AccFunction =
  af_name :: "string option"
  af_arguments :: "string option"

record AccToolCall =
  at_id :: "string option"
  at_type :: "string option"
  at_function :: "AccFunction option"

text \<open>
  The state of one stream: the \<open>Map\<close> from index to accumulation record, in insertion
  order, and the text so far.
\<close>

record StreamState =
  accumulatedToolCalls :: "(int \<times> AccToolCall) list"
  accumulatedContent :: string

definition initialState :: StreamState where
  "initialState = \<lparr>accumulatedToolCalls = [], accumulatedContent = []\<rparr>"

definition emptyAccToolCall :: AccToolCall where
  "emptyAccToolCall = \<lparr>at_id = None, at_type = None, at_function = None\<rparr>"

definition emptyAccFunction :: AccFunction where
  "emptyAccFunction = \<lparr>af_name = None, af_arguments = None\<rparr>"

text \<open>The body of the loop over \<open>choice.delta.tool_calls\<close>.\<close>

definition mergeFunctionDelta :: "AccFunction \<Rightarrow> FunctionDelta \<Rightarrow> AccFunction" where
  "mergeFunctionDelta fn f =
     (let fn1 = (if truthy (fd_name f)
                 then fn\<lparr>af_name := Some (orElse (af_name fn) [] @ the (fd_name f))\<rparr> else fn);
          fn2 = (if truthy (fd_arguments f)
                 then fn1\<lparr>af_arguments := Some (orElse (af_arguments fn1) [] @ the (fd_arguments f))\<rparr>
                 else fn1)
      in fn2)"

definition mergeToolCallDelta ::
  "(int \<times> AccToolCall) list \<Rightarrow> ToolCallDelta \<Rightarrow> (int \<times> AccToolCall) list" where
  "mergeToolCallDelta m toolCallDelta =
     (let index = (case tcd_index toolCallDelta of None \<Rightarrow> 0 | Some i \<Rightarrow> i);
          m1 = (if map_of m index = None then AList.update index emptyAccToolCall m else m);
          accumulated = the (map_of m1 index);
          a1 = (if truthy (tcd_id toolCallDelta)
                then accumulated\<lparr>at_id := tcd_id toolCallDelta\<rparr> else accumulated);
          a2 = (if truthy (tcd_type toolCallDelta)
                then a1\<lparr>at_type := tcd_type toolCallDelta\<rparr> else a1);
          a3 = (case tcd_function toolCallDelta of
                  None \<Rightarrow> a2
                | Some f \<Rightarrow>
                    a2\<lparr>at_function :=
                         Some (mergeFunctionDelta
                                 (case at_function a2 of None \<Rightarrow> emptyAccFunction | Some fn \<Rightarrow> fn)
                                 f)\<rparr>)
      in AList.update index a3 m1)"

definition completed :: "AccToolCall \<Rightarrow> bool" where
  "completed toolCall =
     (truthy (at_id toolCall) \<and>
      (case at_function toolCall of None \<Rightarrow> False | Some fn \<Rightarrow> truthy (af_name fn)))"

definition functionCallOfAcc ::
  "(string \<Rightarrow> json option) \<Rightarrow> AccToolCall \<Rightarrow> error + FunctionCall" where
  "functionCallOfAcc parse toolCall =
     (case parseArguments parse (af_arguments (the (at_function toolCall))) of
        Inl e \<Rightarrow> Inl e
      | Inr v \<Rightarrow>
          Inr \<lparr>fc_id = at_id toolCall,
               fc_name = af_name (the (at_function toolCall)),
               fc_args = Some v\<rparr>)"

definition responseOf :: "Part list \<Rightarrow> string option \<Rightarrow> FunctionCall list option
    \<Rightarrow> GenerateContentResponse" where
  "responseOf ps reason fcs =
     \<lparr>candidates = [candidateOf ps reason], functionCalls = fcs, usageMetadata = None\<rparr>"

text \<open>
  One parsed event, inside the \<open>try\<close>: the responses yielded, the state afterwards, and
  whether the generator has returned. A \<open>JSON.parse\<close> that throws while the final
  response is built is caught by the \<open>catch\<close> of the line: nothing more is yielded for
  the event, the state keeps what the event added, and the generator goes on.
\<close>

definition handleChunk ::
  "(string \<Rightarrow> json option) \<Rightarrow> StreamState \<Rightarrow> OpenAILikeStreamChunk
     \<Rightarrow> GenerateContentResponse list \<times> StreamState \<times> bool" where
  "handleChunk parse st chunk =
     (case sc_choices chunk of
        None \<Rightarrow> ([], st, False)
      | Some [] \<Rightarrow> ([], st, False)
      | Some (choice # _) \<Rightarrow>
          (let content = d_content (sc_delta choice);
               st1 = (if truthy content
                      then st\<lparr>accumulatedContent := accumulatedContent st @ the content\<rparr>
                      else st);
               ys1 = (if truthy content
                      then [responseOf [textPart (the content)] (sc_finish_reason choice) None]
                      else []);
               st2 = (case d_tool_calls (sc_delta choice) of
                        None \<Rightarrow> st1
                      | Some tool_calls \<Rightarrow>
                          st1\<lparr>accumulatedToolCalls :=
                                foldl mergeToolCallDelta (accumulatedToolCalls st1) tool_calls\<rparr>)
           in
           if truthy (sc_finish_reason choice) then
             (if length (accumulatedToolCalls st2) > 0 then
                (let parts0 = (if accumulatedContent st2 \<noteq> []
                               then [textPart (accumulatedContent st2)] else []);
                     kept = filter completed (map snd (accumulatedToolCalls st2))
                 in case mapResult (functionCallOfAcc parse) kept of
                      Inl e \<Rightarrow> (ys1, st2, False)
                    | Inr functionCalls' \<Rightarrow>
                        (case mapResult (functionCallOfAcc parse) kept of
                           Inl e \<Rightarrow> (ys1, st2, False)
                         | Inr functionCallsArray \<Rightarrow>
                             (ys1 @ [responseOf (parts0 @ map callPart functionCalls')
                                       (sc_finish_reason choice) (Some functionCallsArray)],
                              st2, True)))
              else (ys1 @ [responseOf [] (sc_finish_reason choice) None], st2, True))
           else (ys1, st2, False)))"

text \<open>
  \<open>String.prototype.trim\<close> and the white space it strips (the code units below 256 that
  are white space or line terminators).
\<close>

definition isSpace :: "char \<Rightarrow> bool" where
  "isSpace c = (c \<in> set [CHR 0x09, CHR 0x0A, CHR 0x0B, CHR 0x0C, CHR 0x0D, CHR 0x20, CHR 0xA0])"

definition trim :: "string \<Rightarrow> string" where
  "trim s = rev (dropWhile isSpace (rev (dropWhile isSpace s)))"

definition startsWith :: "string \<Rightarrow> string \<Rightarrow> bool" where
  "startsWith s p = (take (length p) s = p)"

text \<open>
  One line of the buffer. \<open>parseChunk\<close> is \<open>JSON.parse\<close> at the type
  \<open>OpenAILikeStreamChunk\<close>; \<open>None\<close> is its \<open>SyntaxError\<close>, which the \<open>catch\<close> logs.
\<close>

definition handleLine ::
  "(string \<Rightarrow> OpenAILikeStreamChunk option) \<Rightarrow> (string \<Rightarrow> json option) \<Rightarrow> StreamState \<Rightarrow> string
     \<Rightarrow> GenerateContentResponse list \<times> StreamState \<times> bool" where
  "handleLine parseChunk parse st line =
     (let trimmed = trim line in
      if trimmed = [] \<or> trimmed = ''data: [DONE]'' then ([], st, False)
      else if startsWith trimmed ''data: '' then
        (let jsonStr = drop 6 trimmed in
         case parseChunk jsonStr of
           None \<Rightarrow> ([], st, False)
         | Some chunk \<Rightarrow> handleChunk parse st chunk)
      else ([], st, False))"

text \<open>The loop \<open>for (const line of lines)\<close>; it ends when the generator returns.\<close>

fun handleLines ::
  "(string \<Rightarrow> OpenAILikeStreamChunk option) \<Rightarrow> (string \<Rightarrow> json option) \<Rightarrow> StreamState
     \<Rightarrow> string list \<Rightarrow> GenerateContentResponse list \<times> StreamState \<times> bool" where
  "handleLines parseChunk parse st [] = ([], st, False)"
| "handleLines parseChunk parse st (line # lines) =
     (case handleLine parseChunk parse st line of
        (ys, st', finished) \<Rightarrow>
          if finished then (ys, st', True)
          else (case handleLines parseChunk parse st' lines of
                  (zs, st'', finished') \<Rightarrow> (ys @ zs, st'', finished')))"

text \<open>\<open>buffer.split('\n')\<close>: never empty; the last element is the unfinished line.\<close>

fun splitLines :: "string \<Rightarrow> string list" where
  "splitLines [] = [[]]"
| "splitLines (c # cs) =
     (if c = CHR 0x0A then [] # splitLines cs
      else (case splitLines cs of [] \<Rightarrow> [[c]] | l # ls \<Rightarrow> (c # l) # ls))"

text \<open>
  The loop \<open>while (true)\<close> over the reads of the body: \<open>reads\<close> are the decoded values
  that \<open>reader.read()\<close> delivers before \<open>done\<close>. The result is what the generator yields.
\<close>

fun readLoop ::
  "(string \<Rightarrow> OpenAILikeStreamChunk option) \<Rightarrow> (string \<Rightarrow> json option) \<Rightarrow> StreamState
     \<Rightarrow> string \<Rightarrow> string list \<Rightarrow> GenerateContentResponse list" where
  "readLoop parseChunk parse st buffer [] = []"
| "readLoop parseChunk parse st buffer (value # reads) =
     (let lines = splitLines (buffer @ value);
          buffer' = last lines
      in case handleLines parseChunk parse st (butlast lines) of
           (ys, st', finished) \<Rightarrow>
             if finished then ys else ys @ readLoop parseChunk parse st' buffer' reads)"

text \<open>
  The response of the transport: \<open>ok\<close>, the text of the error line
  (\<open>status statusText - body\<close>), and the reads of the body when there is one.
\<close>

record HttpResponse =
  http_ok :: bool
  http_error :: string
  http_body :: "string list option"

datatype streamError = ApiError string | NoResponseBody

definition generateContentStream ::
  "(string \<Rightarrow> OpenAILikeStreamChunk option) \<Rightarrow> (string \<Rightarrow> json option) \<Rightarrow> HttpResponse
     \<Rightarrow> streamError + GenerateContentResponse list" where
  "generateContentStream parseChunk parse response =
     (if \<not> http_ok response then Inl (ApiError (''OpenAI-like API error: '' @ http_error response))
      else (case http_body response of
              None \<Rightarrow> Inl NoResponseBody
            | Some reads \<Rightarrow> Inr (readLoop parseChunk parse initialState [] reads)))"

text \<open>The text that is parsed for an argument string: \<open>arguments || '{}'\<close>.\<close>

definition argumentsText :: "string \<Rightarrow> string" where
  "argumentsText a = (if a = [] then ''{}'' else a)"

text \<open>
  Three wire responses: two tool calls with valid arguments, a tool call whose argument
  string is cut short, and a tool call with the empty argument string.
\<close>

definition weatherResponse :: OpenAILikeResponse where
  \<open>weatherResponse =
     \<lparr>r_choices =
        [\<lparr>ch_message =
            \<lparr>rm_content = Some ''Let me check.'',
             rm_tool_calls =
               Some [\<lparr>tc_id = ''call_1'', tc_type = ''function'', tc_name = Some ''get_weather'',
                       tc_arguments = ''{"city": "Paris"}''\<rparr>,
                     \<lparr>tc_id = ''call_2'', tc_type = ''function'', tc_name = Some ''get_time'',
                       tc_arguments = ''{"zone": 2}''\<rparr>]\<rparr>,
           ch_finish_reason = ''tool_calls''\<rparr>],
      r_usage = \<lparr>prompt_tokens = 10, completion_tokens = 5, total_tokens = 15\<rparr>\<rparr>\<close>

definition brokenResponse :: OpenAILikeResponse where
  \<open>brokenResponse =
     \<lparr>r_choices =
        [\<lparr>ch_message =
            \<lparr>rm_content = None,
             rm_tool_calls =
               Some [\<lparr>tc_id = ''call_1'', tc_type = ''function'', tc_name = Some ''get_weather'',
                       tc_arguments = ''{"city": "Paris"}''\<rparr>,
                     \<lparr>tc_id = ''call_2'', tc_type = ''function'', tc_name = Some ''get_time'',
                       tc_arguments = ''{"zone": ''\<rparr>]\<rparr>,
           ch_finish_reason = ''tool_calls''\<rparr>],
      r_usage = \<lparr>prompt_tokens = 10, completion_tokens = 5, total_tokens = 15\<rparr>\<rparr>\<close>

definition emptyArgumentsResponse :: OpenAILikeResponse where
  \<open>emptyArgumentsResponse =
     \<lparr>r_choices =
        [\<lparr>ch_message =
            \<lparr>rm_content = None,
             rm_tool_calls =
               Some [\<lparr>tc_id = ''call_1'', tc_type = ''function'', tc_name = Some ''list_files'',
                       tc_arguments = []\<rparr>]\<rparr>,
           ch_finish_reason = ''tool_calls''\<rparr>],
      r_usage = \<lparr>prompt_tokens = 10, completion_tokens = 5, total_tokens = 15\<rparr>\<rparr>\<close>

subsection \<open>Reading a stream\<close>

text \<open>
  The event a line carries, if any: a line is skipped when it is blank, is the
  \<open>[DONE]\<close> marker, does not start with \<open>data: \<close>, or does not parse.
\<close>

definition frameOf :: "(string \<Rightarrow> OpenAILikeStreamChunk option) \<Rightarrow> string \<Rightarrow> OpenAILikeStreamChunk option" where
  "frameOf parseChunk line =
     (let trimmed = trim line in
      if trimmed = [] \<or> trimmed = ''data: [DONE]'' then None
      else if startsWith trimmed ''data: '' then parseChunk (drop 6 trimmed)
      else None)"

definition eventsOf :: "(string \<Rightarrow> OpenAILikeStreamChunk option) \<Rightarrow> string list \<Rightarrow> OpenAILikeStreamChunk list" where
  "eventsOf parseChunk lines = List.map_filter (frameOf parseChunk) lines"

text \<open>An event finishes the stream when its first choice has a truthy finish reason.\<close>

definition finishing :: "OpenAILikeStreamChunk \<Rightarrow> bool" where
  "finishing chunk =
     (case sc_choices chunk of
        None \<Rightarrow> False
      | Some [] \<Rightarrow> False
      | Some (choice # _) \<Rightarrow> truthy (sc_finish_reason choice))"

text \<open>The tool-call deltas of an event, and what one delta delivers.\<close>

definition chunkDeltas :: "OpenAILikeStreamChunk \<Rightarrow> ToolCallDelta list" where
  "chunkDeltas chunk =
     (case sc_choices chunk of
        None \<Rightarrow> []
      | Some [] \<Rightarrow> []
      | Some (choice # _) \<Rightarrow>
          (case d_tool_calls (sc_delta choice) of None \<Rightarrow> [] | Some ds \<Rightarrow> ds))"

definition deltaIndex :: "ToolCallDelta \<Rightarrow> int" where
  "deltaIndex d = (case tcd_index d of None \<Rightarrow> 0 | Some i \<Rightarrow> i)"

definition deltaArguments :: "ToolCallDelta \<Rightarrow> string" where
  "deltaArguments d =
     (case tcd_function d of
        None \<Rightarrow> []
      | Some f \<Rightarrow> (case fd_arguments f of None \<Rightarrow> [] | Some a \<Rightarrow> a))"

definition deltaName :: "ToolCallDelta \<Rightarrow> string" where
  "deltaName d =
     (case tcd_function d of
        None \<Rightarrow> []
      | Some f \<Rightarrow> (case fd_name f of None \<Rightarrow> [] | Some a \<Rightarrow> a))"

text \<open>
  For one accumulation index: the fragments of the argument string and of the name, in
  the order of delivery, and the non-empty ids delivered.
\<close>

definition argumentFragments :: "int \<Rightarrow> ToolCallDelta list \<Rightarrow> string list" where
  "argumentFragments i ds = map deltaArguments (filter (\<lambda>d. deltaIndex d = i) ds)"

definition nameFragments :: "int \<Rightarrow> ToolCallDelta list \<Rightarrow> string list" where
  "nameFragments i ds = map deltaName (filter (\<lambda>d. deltaIndex d = i) ds)"

definition idsDelivered :: "int \<Rightarrow> ToolCallDelta list \<Rightarrow> string list" where
  "idsDelivered i ds =
     map (\<lambda>d. the (tcd_id d)) (filter (\<lambda>d. deltaIndex d = i \<and> truthy (tcd_id d)) ds)"

text \<open>What the accumulation map holds for an index.\<close>

definition accArguments :: "(int \<times> AccToolCall) list \<Rightarrow> int \<Rightarrow> string" where
  "accArguments m i =
     (case map_of m i of
        None \<Rightarrow> []
      | Some a \<Rightarrow> (case at_function a of None \<Rightarrow> [] | Some fn \<Rightarrow> orElse (af_arguments fn) []))"

definition accName :: "(int \<times> AccToolCall) list \<Rightarrow> int \<Rightarrow> string" where
  "accName m i =
     (case map_of m i of
        None \<Rightarrow> []
      | Some a \<Rightarrow> (case at_function a of None \<Rightarrow> [] | Some fn \<Rightarrow> orElse (af_name fn) []))"

definition accId :: "(int \<times> AccToolCall) list \<Rightarrow> int \<Rightarrow> string" where
  "accId m i = (case map_of m i of None \<Rightarrow> [] | Some a \<Rightarrow> orElse (at_id a) [])"

text \<open>The state after the deltas of an event whose first choice is \<open>choice\<close>.\<close>

definition afterDeltas :: "StreamState \<Rightarrow> StreamChoice \<Rightarrow> StreamState" where
  "afterDeltas st choice =
     \<lparr>accumulatedToolCalls =
        (case d_tool_calls (sc_delta choice) of
           None \<Rightarrow> accumulatedToolCalls st
         | Some ds \<Rightarrow> foldl mergeToolCallDelta (accumulatedToolCalls st) ds),
      accumulatedContent =
        accumulatedContent st @
        (case d_content (sc_delta choice) of None \<Rightarrow> [] | Some t \<Rightarrow> t)\<rparr>"

text \<open>The incremental text response of an event, when its delta has text.\<close>

definition textFragment :: "StreamChoice \<Rightarrow> GenerateContentResponse list" where
  "textFragment choice =
     (case d_content (sc_delta choice) of
        None \<Rightarrow> []
      | Some t \<Rightarrow> if t = [] then [] else [responseOf [textPart t] (sc_finish_reason choice) None])"

text \<open>The record for an index after one delta is merged into it.\<close>

definition mergedRecord :: "AccToolCall \<Rightarrow> ToolCallDelta \<Rightarrow> AccToolCall" where
  "mergedRecord accumulated toolCallDelta =
     (let a1 = (if truthy (tcd_id toolCallDelta)
                then accumulated\<lparr>at_id := tcd_id toolCallDelta\<rparr> else accumulated);
          a2 = (if truthy (tcd_type toolCallDelta)
                then a1\<lparr>at_type := tcd_type toolCallDelta\<rparr> else a1)
      in (case tcd_function toolCallDelta of
                  None \<Rightarrow> a2
                | Some f \<Rightarrow>
                    a2\<lparr>at_function :=
                         Some (mergeFunctionDelta
                                 (case at_function a2 of None \<Rightarrow> emptyAccFunction | Some fn \<Rightarrow> fn)
                                 f)\<rparr>))"

subsection \<open>Reading an event at its declared type\<close>

text \<open>
  \<open>parseStreamChunk\<close> is \<open>JSON.parse\<close> followed by the reading of the value at the type
  \<open>OpenAILikeStreamChunk\<close>, for the streams that are evaluated: events whose fields, where
  present, have the types that the interface declares, and whose tool-call indices are
  integers. A first choice whose \<open>delta\<close> is absent or \<open>null\<close> has no reading: the generator
  throws a \<open>TypeError\<close> at \<open>choice.delta.content\<close> before anything else, and the \<open>catch\<close> skips
  the event as it skips one that does not parse. A \<open>delta\<close> of any other kind is read for
  its fields, which a value that is no object does not have.
\<close>

definition jsonField :: "string \<Rightarrow> json \<Rightarrow> json option" where
  "jsonField k j = (case j of JObj kvs \<Rightarrow> map_of kvs k | _ \<Rightarrow> None)"

definition jsonString :: "json option \<Rightarrow> string option" where
  "jsonString j = (case j of Some (JStr s) \<Rightarrow> Some s | _ \<Rightarrow> None)"

definition digitValue :: "char \<Rightarrow> int" where
  "digitValue c = int (of_char c) - 48"

definition digitsValue :: "string \<Rightarrow> int" where
  "digitsValue ds = foldl (\<lambda>a d. 10 * a + digitValue d) 0 ds"

text \<open>
  The integer that a number literal denotes, \<open>None\<close> when it denotes no integer: the digits
  of the mantissa, shifted by the exponent less the length of the fraction.
\<close>

definition intOfLexeme :: "string \<Rightarrow> int option" where
  "intOfLexeme s =
     (let negative = (take 1 s = ''-'');
          body = (if negative then drop 1 s else s);
          mantissa = takeWhile (\<lambda>c. c \<noteq> CHR ''e'' \<and> c \<noteq> CHR ''E'') body;
          exponentText = drop (Suc (length mantissa)) body;
          whole = takeWhile (\<lambda>c. c \<noteq> CHR ''.'') mantissa;
          fraction = drop (Suc (length whole)) mantissa;
          signed = (take 1 exponentText = ''-'' \<or> take 1 exponentText = ''+'');
          exponentDigits = (if signed then drop 1 exponentText else exponentText);
          exponent = (if take 1 exponentText = ''-'' then - digitsValue exponentDigits
                      else digitsValue exponentDigits);
          shift = exponent - int (length fraction);
          digits = digitsValue (whole @ fraction);
          magnitude =
            (if 0 \<le> shift then Some (digits * 10 ^ nat shift)
             else if digits mod 10 ^ nat (- shift) = 0 then Some (digits div 10 ^ nat (- shift))
             else None)
      in if whole = [] \<or> \<not> list_all isDigit (whole @ fraction @ exponentDigits) then None
         else map_option (\<lambda>m. if negative then - m else m) magnitude)"

definition functionDeltaOfJson :: "json \<Rightarrow> FunctionDelta" where
  "functionDeltaOfJson j =
     \<lparr>fd_name = jsonString (jsonField ''name'' j),
      fd_arguments = jsonString (jsonField ''arguments'' j)\<rparr>"

definition toolCallDeltaOfJson :: "json \<Rightarrow> ToolCallDelta" where
  "toolCallDeltaOfJson j =
     \<lparr>tcd_index = (case jsonField ''index'' j of Some (JNum n) \<Rightarrow> intOfLexeme n | _ \<Rightarrow> None),
      tcd_id = jsonString (jsonField ''id'' j),
      tcd_type = jsonString (jsonField ''type'' j),
      tcd_function =
        (case jsonField ''function'' j of
           Some (JObj kvs) \<Rightarrow> Some (functionDeltaOfJson (JObj kvs))
         | _ \<Rightarrow> None)\<rparr>"

definition choiceOfJson :: "json \<Rightarrow> StreamChoice option" where
  "choiceOfJson j =
     (case jsonField ''delta'' j of
        None \<Rightarrow> None
      | Some JNull \<Rightarrow> None
      | Some delta \<Rightarrow>
          Some \<lparr>sc_delta =
                  \<lparr>d_content = jsonString (jsonField ''content'' delta),
                   d_tool_calls =
                     (case jsonField ''tool_calls'' delta of
                        Some (JArr xs) \<Rightarrow> Some (map toolCallDeltaOfJson xs)
                      | _ \<Rightarrow> None)\<rparr>,
                sc_finish_reason = jsonString (jsonField ''finish_reason'' j)\<rparr>)"

definition chunkOfJson :: "json \<Rightarrow> OpenAILikeStreamChunk option" where
  "chunkOfJson j =
     (case jsonField ''choices'' j of
        Some (JArr []) \<Rightarrow> Some \<lparr>sc_choices = Some []\<rparr>
      | Some (JArr (x # xs)) \<Rightarrow>
          (case choiceOfJson x of
             None \<Rightarrow> None
           | Some choice \<Rightarrow> Some \<lparr>sc_choices = Some (choice # List.map_filter choiceOfJson xs)\<rparr>)
      | _ \<Rightarrow> Some \<lparr>sc_choices = None\<rparr>)"

definition parseStreamChunk :: "string \<Rightarrow> OpenAILikeStreamChunk option" where
  "parseStreamChunk s = (case JSON_parse s of None \<Rightarrow> None | Some j \<Rightarrow> chunkOfJson j)"

subsection \<open>Streams that are evaluated\<close>

text \<open>
  Each stream is the list of its reads; a read may end in the middle of a line. The first
  delivers the argument string \<open>{"city":"Paris"}\<close> of one tool call in three fragments,
  after a text delta. The second is a text answer that ends with the finish reason
  \<open>stop\<close>. In the third the finish reason is the empty string, and in the fourth the
  argument string is cut short; both go on with a text delta after the finishing event.
\<close>

definition okResponse :: "string list \<Rightarrow> HttpResponse" where
  "okResponse reads = \<lparr>http_ok = True, http_error = [], http_body = Some reads\<rparr>"

definition weatherReads :: "string list" where
  \<open>weatherReads =
     [''data: {"choices":[{"delta":{"content":"Checking. "},"finish_reason":null}]}'' @ [CHR 0x0A] @
      ''data: {"choices":[{"delta":{"tool_calls":[{"index":0,"id":"call_1","type":"func'',
      ''tion","function":{"name":"get_weather","arguments":"{'' @ [CHR 0x5C, CHR 0x22] @
      ''ci"}}]},"finish_reason":null}]}'' @ [CHR 0x0A, CHR 0x0A] @
      ''data: {"choices":[{"delta":{"tool_calls":[{"index":0,"function":{"arguments":"ty'' @
      [CHR 0x5C, CHR 0x22] @ '':'' @ [CHR 0x5C, CHR 0x22] @
      ''"}}]},"finish_reason":null}]}'' @ [CHR 0x0A],
      ''data: {"choices":[{"delta":{"tool_calls":[{"index":0,"function":{"arguments":"Paris'' @
      [CHR 0x5C, CHR 0x22] @ ''}"}}]},"finish_reason":null}]}'' @ [CHR 0x0A] @
      ''data: {"choices":[{"delta":{},"finish_reason":"tool_calls"}]}'' @ [CHR 0x0A] @
      ''data: [DONE]'' @ [CHR 0x0A]]\<close>

definition helloReads :: "string list" where
  \<open>helloReads =
     [''data: {"choices":[{"delta":{"content":"Hel"},"finish_reason":null}]}'' @ [CHR 0x0A] @
      ''data: {"choices":[{"delta":{"content":"lo"},"finish_reason":null}]}'' @ [CHR 0x0A] @
      ''data: {"choices":[{"delta":{},"fin'',
      ''ish_reason":"stop"}]}'' @ [CHR 0x0A] @
      ''data: {"choices":[{"delta":{"content":"late"},"finish_reason":null}]}'' @ [CHR 0x0A]]\<close>

definition emptyReasonReads :: "string list" where
  \<open>emptyReasonReads =
     [''data: {"choices":[{"delta":{},"finish_reason":""}]}'' @ [CHR 0x0A] @
      ''data: {"choices":[{"delta":{"content":"late"},"finish_reason":null}]}'' @ [CHR 0x0A]]\<close>

definition brokenArgumentsReads :: "string list" where
  \<open>brokenArgumentsReads =
     [''data: {"choices":[{"delta":{"tool_calls":[{"index":0,"id":"call_1","function":{"name":"get_weather","arguments":"{"}}]},"finish_reason":"tool_calls"}]}'' @ [CHR 0x0A] @
      ''data: {"choices":[{"delta":{"content":"late"},"finish_reason":null}]}'' @ [CHR 0x0A]]\<close>

text \<open>
  A stream with a text delta and three tool calls; the one at index 1 never gets a name,
  and the finish reason comes with the last delta.
\<close>

definition threeCallsReads :: "string list" where
  \<open>threeCallsReads =
     [''data: {"choices":[{"delta":{"content":"Plan. "},"finish_reason":null}]}'' @ [CHR 0x0A] @
      ''data: {"choices":[{"delta":{"tool_calls":[{"index":0,"id":"call_a","function":{"name":"alpha","arguments":"{}"}},{"index":1,"id":"call_b","function":{"arguments":"[1]"}}]},"finish_reason":null}]}'' @ [CHR 0x0A] @
      ''data: {"choices":[{"delta":{"tool_calls":[{"index":2,"id":"call_c","function":{"name":"gamma"}}]},"finish_reason":"tool_calls"}]}'' @ [CHR 0x0A] @
      ''data: {"choices":[{"delta":{"content":"late"},"finish_reason":null}]}'' @ [CHR 0x0A]]\<close>

section \<open>Validation of the auth method\<close>

text \<open>
  The enum \<open>AuthType\<close> of the core package, declared beside \<open>createContentGeneratorConfig\<close>,
  which \<open>auth.ts\<close> imports. Its members are strings. \<open>AuthType member\<close> is the property access
  \<open>AuthType.member\<close>: the string of a declared member, and \<open>undefined\<close>, which is \<open>None\<close>, for
  a name that the enum does not declare. An auth method is a string or \<open>undefined\<close>.
\<close>

definition AuthType :: "string \<Rightarrow> string option" where
  "AuthType member =
     map_of
       [(''LOGIN_WITH_GOOGLE_PERSONAL'', ''oauth-personal''),
        (''USE_GEMINI'', ''gemini-api-key''),
        (''USE_VERTEX_AI'', ''vertex-ai''),
        (''USE_DEEPSEEK'', ''deepseek-api-key''),
        (''USE_OPENAI_LIKE'', ''openai-like-api''),
        (''USE_AZURE_OPENAI'', ''azure-openai'')]
       member"

record AuthValidationResult =
  message :: string
  missing :: "string list"

text \<open>\<open>process.env\<close>; a variable is unset for \<open>!process.env.X\<close> when it is absent or empty.\<close>

type_synonym env = "string \<Rightarrow> string option"

definition unset :: "env \<Rightarrow> string \<Rightarrow> bool" where
  "unset env name = (\<not> truthy (env name))"

text \<open>The bullet of the messages, as the bytes of its UTF-8 encoding.\<close>

definition bullet :: string where
  "bullet = [CHR 0xE2, CHR 0x80, CHR 0xA2, CHR '' '']"

definition retryLine :: string where
  "retryLine = ''Update your environment and try again (no reload needed if using .env)!''"

text \<open>
  \<open>loadEnvironment\<close>, whose code is missing, is a parameter: it takes \<open>process.env\<close> to
  what it is after the \<open>.env\<close> file is loaded. Each test is \<open>authMethod === AuthType.X\<close>, with
  the names that the source writes; the two branches for \<open>AZURE_OPENAI\<close> are the source's.
\<close>

definition validateAuthMethod ::
  "(env \<Rightarrow> env) \<Rightarrow> env \<Rightarrow> string option \<Rightarrow> AuthValidationResult option" where
  "validateAuthMethod loadEnvironment env0 authMethod =
     (let env = loadEnvironment env0 in
      if authMethod = AuthType ''CLOUD_SHELL'' then None
      else if authMethod = AuthType ''LOGIN_WITH_GOOGLE'' then
        (if unset env ''GOOGLE_CLOUD_PROJECT'' then
           Some \<lparr>message = ''GOOGLE_CLOUD_PROJECT environment variable not found. Add that to your environment and try again (no reload needed if using .env)!'',
                 missing = [''GOOGLE_CLOUD_PROJECT'']\<rparr>
         else None)
      else if authMethod = AuthType ''USE_GEMINI'' then
        (if unset env ''GEMINI_API_KEY'' then
           Some \<lparr>message = ''GEMINI_API_KEY environment variable not found. Add that to your environment and try again (no reload needed if using .env)!'',
                 missing = [''GEMINI_API_KEY'']\<rparr>
         else None)
      else if authMethod = AuthType ''USE_VERTEX_AI'' then
        (let hasVertexProjectLocationConfig =
               (\<not> unset env ''GOOGLE_CLOUD_PROJECT'' \<and> \<not> unset env ''GOOGLE_CLOUD_LOCATION'');
             hasGoogleApiKey = (\<not> unset env ''GOOGLE_API_KEY'')
         in if \<not> hasVertexProjectLocationConfig \<and> \<not> hasGoogleApiKey then
              Some \<lparr>message =
                      ''When using Vertex AI, you must specify either:'' @ [CHR 0x0A] @
                      bullet @ ''GOOGLE_CLOUD_PROJECT and GOOGLE_CLOUD_LOCATION environment variables.'' @ [CHR 0x0A] @
                      bullet @ ''GOOGLE_API_KEY environment variable (if using express mode).'' @ [CHR 0x0A] @
                      retryLine,
                    missing =
                      (if unset env ''GOOGLE_CLOUD_PROJECT'' then [''GOOGLE_CLOUD_PROJECT''] else []) @
                      (if unset env ''GOOGLE_CLOUD_LOCATION'' then [''GOOGLE_CLOUD_LOCATION''] else []) @
                      (if unset env ''GOOGLE_API_KEY'' then [''GOOGLE_API_KEY''] else [])\<rparr>
            else None)
      else if authMethod = AuthType ''AZURE_OPENAI'' then
        (let missing' =
               (if unset env ''AZURE_OPENAI_API_KEY'' then [''AZURE_OPENAI_API_KEY''] else []) @
               (if unset env ''AZURE_OPENAI_ENDPOINT'' then [''AZURE_OPENAI_ENDPOINT''] else [])
         in if length missing' > 0 then
              Some \<lparr>message =
                      ''When using Azure OpenAI, you must specify the following environment variables:'' @ [CHR 0x0A] @
                      bullet @ ''AZURE_OPENAI_API_KEY'' @ [CHR 0x0A] @
                      bullet @ ''AZURE_OPENAI_ENDPOINT'' @ [CHR 0x0A] @
                      retryLine,
                    missing = missing'\<rparr>
            else None)
      else if authMethod = AuthType ''AZURE_OPENAI'' then
        (let missing' =
               (if unset env ''AZURE_OPENAI_API_KEY'' then [''AZURE_OPENAI_API_KEY''] else []) @
               (if unset env ''AZURE_OPENAI_ENDPOINT'' then [''AZURE_OPENAI_ENDPOINT''] else []) @
               (if unset env ''AZURE_OPENAI_MODEL'' then [''AZURE_OPENAI_MODEL''] else [])
         in if length missing' > 0 then
              Some \<lparr>message =
                      ''When using Azure OpenAI, you must specify the following environment variables:'' @ [CHR 0x0A] @
                      bullet @ ''AZURE_OPENAI_API_KEY'' @ [CHR 0x0A] @
                      bullet @ ''AZURE_OPENAI_ENDPOINT'' @ [CHR 0x0A] @
                      bullet @ ''AZURE_OPENAI_MODEL'' @ [CHR 0x0A] @
                      retryLine,
                    missing = missing'\<rparr>
            else None)
      else Some \<lparr>message = ''Invalid auth method selected.'', missing = []\<rparr>)"

text \<open>
  An environment with every variable of Azure OpenAI set: the key, the endpoint under both
  of its names, and the model. And the environment with no variable at all.
\<close>

definition azureEnv :: env where
  "azureEnv =
     [''AZURE_OPENAI_API_KEY'' \<mapsto> ''secret'',
      ''AZURE_OPENAI_BASE_URL'' \<mapsto> ''https://example.openai.azure.com/v1/chat/completions'',
      ''AZURE_OPENAI_ENDPOINT'' \<mapsto> ''https://example.openai.azure.com/v1/chat/completions'',
      ''AZURE_OPENAI_MODEL'' \<mapsto> ''gpt-4o'']"

definition emptyEnv :: env where
  "emptyEnv = Map.empty"

definition noEnvFile :: "env \<Rightarrow> env" where
  "noEnvFile env = env"


section \<open>Tool declarations\<close>

text \<open>
  \<open>String.prototype.toLowerCase\<close> on the code units below 256: the upper-case letters are
  \<open>A\<close> to \<open>Z\<close> and the accented capitals 192 to 222 (215, the multiplication sign, apart),
  each 32 below its lower-case letter.
\<close>

definition isUpperChar :: "char \<Rightarrow> bool" where
  "isUpperChar c =
     (let n = (of_char c :: nat)
      in (65 \<le> n \<and> n \<le> 90) \<or> (192 \<le> n \<and> n \<le> 214) \<or> (216 \<le> n \<and> n \<le> 222))"

definition toLowerChar :: "char \<Rightarrow> char" where
  "toLowerChar c = (if isUpperChar c then char_of ((of_char c :: nat) + 32) else c)"

definition toLowerCase :: "string \<Rightarrow> string" where
  "toLowerCase s = map toLowerChar s"

text \<open>The values of an object are smaller than the object: for the termination below.\<close>

lemma size_map_of_json [termination_simp]:
  "map_of kvs k = Some v \<Longrightarrow> size v < Suc (size_list (\<lambda>x. Suc (size (snd x))) kvs)"
  by (induction kvs) (auto split: if_splits)

lemma size_map_of_JObj [termination_simp]:
  assumes "map_of kvs k = Some (JObj props)" and "kv \<in> set props"
  shows "size (snd kv) < Suc (size_list (\<lambda>x. Suc (size (snd x))) kvs)"
proof -
  have "size (snd kv) < Suc (size_list (\<lambda>x. Suc (size (snd x))) props)"
    using assms(2) by (induction props) auto
  also have "\<dots> \<le> size (JObj props)" by (simp add: size_prod_simp)
  also have "\<dots> < Suc (size_list (\<lambda>x. Suc (size (snd x))) kvs)"
    using size_map_of_json[OF assms(1)] .
  finally show ?thesis .
qed

lemma size_map_of_JArr [termination_simp]:
  assumes "map_of kvs k = Some (JArr xs)" and "x \<in> set xs"
  shows "size x < Suc (size_list (\<lambda>x. Suc (size (snd x))) kvs)"
proof -
  have "size x < Suc (size_list size xs)"
    using assms(2) by (induction xs) auto
  also have "\<dots> = size (JArr xs)" by simp
  also have "\<dots> < Suc (size_list (\<lambda>x. Suc (size (snd x))) kvs)"
    using size_map_of_json[OF assms(1)] .
  finally show ?thesis .
qed

text \<open>
  The statements of \<open>convertSchemaTypeToLowerCase\<close>, one definition each, on the members of
  an object: \<open>schema\<close> is the object as the statements before have left it, and \<open>schema0\<close>
  the object at the call, from which each child is read (the statements before write to
  other keys, so the two agree at the key that is read). The recursive call is \<open>f\<close>.
  \<open>for (const key in schema.properties)\<close> visits the values of an object and the elements
  of an array; any other truthy value has no member that is an object.
\<close>

definition lowerType :: "(string \<times> json) list \<Rightarrow> (string \<times> json) list" where
  "lowerType schema =
     (case map_of schema ''type'' of
        Some (JStr t) \<Rightarrow> AList.update ''type'' (JStr (toLowerCase t)) schema
      | _ \<Rightarrow> schema)"

definition forProperties ::
  "(json \<Rightarrow> json) \<Rightarrow> (string \<times> json) list \<Rightarrow> (string \<times> json) list \<Rightarrow> (string \<times> json) list" where
  "forProperties f schema0 schema =
     (case map_of schema0 ''properties'' of
        Some (JObj props) \<Rightarrow>
          AList.update ''properties'' (JObj (map (\<lambda>kv. (fst kv, f (snd kv))) props)) schema
      | Some (JArr xs) \<Rightarrow> AList.update ''properties'' (JArr (map f xs)) schema
      | _ \<Rightarrow> schema)"

definition forItems ::
  "(json \<Rightarrow> json) \<Rightarrow> (string \<times> json) list \<Rightarrow> (string \<times> json) list \<Rightarrow> (string \<times> json) list" where
  "forItems f schema0 schema =
     (case map_of schema0 ''items'' of
        Some v \<Rightarrow> AList.update ''items'' (f v) schema
      | None \<Rightarrow> schema)"

definition forEachOf ::
  "string \<Rightarrow> (json \<Rightarrow> json) \<Rightarrow> (string \<times> json) list \<Rightarrow> (string \<times> json) list \<Rightarrow> (string \<times> json) list" where
  "forEachOf key f schema0 schema =
     (case map_of schema0 key of
        Some (JArr xs) \<Rightarrow> AList.update key (JArr (map f xs)) schema
      | _ \<Rightarrow> schema)"

lemma forProperties_cong [fundef_cong]:
  assumes "schema0 = schema0'" "schema = schema'"
    and "\<And>props kv. map_of schema0' ''properties'' = Some (JObj props) \<Longrightarrow> kv \<in> set props \<Longrightarrow>
           f (snd kv) = g (snd kv)"
    and "\<And>xs x. map_of schema0' ''properties'' = Some (JArr xs) \<Longrightarrow> x \<in> set xs \<Longrightarrow> f x = g x"
  shows "forProperties f schema0 schema = forProperties g schema0' schema'"
proof -
  have a: "map (\<lambda>kv. (fst kv, f (snd kv))) props = map (\<lambda>kv. (fst kv, g (snd kv))) props"
    if "map_of schema0' ''properties'' = Some (JObj props)" for props
    using assms(3)[OF that] by (intro map_cong) auto
  have b: "map f xs = map g xs" if "map_of schema0' ''properties'' = Some (JArr xs)" for xs
    using assms(4)[OF that] by (intro map_cong) auto
  show ?thesis
    using assms(1,2) a b
    by (simp add: forProperties_def split: option.splits json.splits del: map_eq_conv)
qed

lemma forItems_cong [fundef_cong]:
  assumes "schema0 = schema0'" "schema = schema'"
    and "\<And>v. map_of schema0' ''items'' = Some v \<Longrightarrow> f v = g v"
  shows "forItems f schema0 schema = forItems g schema0' schema'"
  using assms by (auto simp: forItems_def split: option.splits)

lemma forEachOf_cong [fundef_cong]:
  assumes "key = key'" "schema0 = schema0'" "schema = schema'"
    and "\<And>xs x. map_of schema0' key' = Some (JArr xs) \<Longrightarrow> x \<in> set xs \<Longrightarrow> f x = g x"
  shows "forEachOf key f schema0 schema = forEachOf key' g schema0' schema'"
proof -
  have b: "map f xs = map g xs" if "map_of schema0' key' = Some (JArr xs)" for xs
    using assms(4)[OF that] by (intro map_cong) auto
  show ?thesis
    using assms(1-3) b
    by (simp add: forEachOf_def split: option.splits json.splits del: map_eq_conv)
qed

text \<open>
  The object after the call \<open>convertSchemaTypeToLowerCase(schema)\<close>, which mutates it in
  place. A value that is not an object is left alone, and so is an array, which has none
  of the six keys.
\<close>

fun convertSchemaTypeToLowerCase :: "json \<Rightarrow> json" where
  "convertSchemaTypeToLowerCase (JObj schema) =
     JObj (forEachOf ''oneOf'' convertSchemaTypeToLowerCase schema
          (forEachOf ''allOf'' convertSchemaTypeToLowerCase schema
          (forEachOf ''anyOf'' convertSchemaTypeToLowerCase schema
          (forItems convertSchemaTypeToLowerCase schema
          (forProperties convertSchemaTypeToLowerCase schema
          (lowerType schema))))))"
| "convertSchemaTypeToLowerCase j = j"


text \<open>
  A schema whose \<open>type\<close> strings are all lower case, at every place the claim names: the
  schema itself, each value of its \<open>properties\<close>, its \<open>items\<close>, and each element of its
  \<open>anyOf\<close>, \<open>allOf\<close> and \<open>oneOf\<close>, recursively.
\<close>

definition isLowerCase :: "string \<Rightarrow> bool" where
  "isLowerCase s = list_all (\<lambda>c. \<not> isUpperChar c) s"

fun typesLowerCase :: "json \<Rightarrow> bool" where
  "typesLowerCase (JObj schema) =
     ((case map_of schema ''type'' of Some (JStr t) \<Rightarrow> isLowerCase t | _ \<Rightarrow> True) \<and>
      (case map_of schema ''properties'' of
         Some (JObj props) \<Rightarrow> list_all (\<lambda>kv. typesLowerCase (snd kv)) props
       | _ \<Rightarrow> True) \<and>
      (case map_of schema ''items'' of Some v \<Rightarrow> typesLowerCase v | None \<Rightarrow> True) \<and>
      (case map_of schema ''anyOf'' of Some (JArr xs) \<Rightarrow> list_all typesLowerCase xs | _ \<Rightarrow> True) \<and>
      (case map_of schema ''allOf'' of Some (JArr xs) \<Rightarrow> list_all typesLowerCase xs | _ \<Rightarrow> True) \<and>
      (case map_of schema ''oneOf'' of Some (JArr xs) \<Rightarrow> list_all typesLowerCase xs | _ \<Rightarrow> True))"
| "typesLowerCase j = True"



subsection \<open>The store, and convertToOpenAITools\<close>

text \<open>
  The conversion copies a schema so that the lowering, which writes in place, does not
  reach the caller's object. To state that, the schema objects live in a store: an
  address is an index in the list, an object is allocated at the end, and a declaration
  holds the address of its \<open>parameters\<close>. One cell holds one JSON document: the result of
  \<open>JSON.parse\<close> shares no part with another object.
\<close>

record FunctionDeclaration =
  decl_name :: "string option"
  decl_description :: "string option"
  decl_parameters :: "nat option"

record OpenAILikeTool =
  tool_type :: string
  tool_name :: string
  tool_description :: string
  tool_parameters :: nat

type_synonym store = "json list"

datatype toolsError = NotSerializable string | NoSuchObject nat

text \<open>The call on the object at an address: the one write to the store.\<close>

definition convertSchemaTypeToLowerCaseAt :: "nat \<Rightarrow> store \<Rightarrow> store" where
  "convertSchemaTypeToLowerCaseAt a \<sigma> = \<sigma>[a := convertSchemaTypeToLowerCase (\<sigma> ! a)]"

text \<open>
  The callback of \<open>functionDeclarations.map\<close>. \<open>JSON.parse(JSON.stringify(x))\<close> allocates
  a new object; a \<open>parameters\<close> address with no object behind it is not an input that
  JavaScript has.
\<close>

definition convertDeclaration ::
  "(json \<Rightarrow> string) \<Rightarrow> (string \<Rightarrow> json option) \<Rightarrow> store \<Rightarrow> FunctionDeclaration
     \<Rightarrow> toolsError + (OpenAILikeTool \<times> store)" where
  "convertDeclaration stringify parse \<sigma> declaration =
     (case (case decl_parameters declaration of
              None \<Rightarrow> Inr (JObj [])
            | Some a \<Rightarrow> if a < length \<sigma> then Inr (\<sigma> ! a) else Inl (NoSuchObject a)) of
        Inl e \<Rightarrow> Inl e
      | Inr source \<Rightarrow>
          (case parse (stringify source) of
             None \<Rightarrow> Inl (NotSerializable (stringify source))
           | Some copy \<Rightarrow>
               (let parameters = length \<sigma>;
                    \<sigma>1 = \<sigma> @ [copy];
                    \<sigma>2 = convertSchemaTypeToLowerCaseAt parameters \<sigma>1
                in Inr (\<lparr>tool_type = ''function'',
                         tool_name = orElse (decl_name declaration) ''unknown_function'',
                         tool_description = orElse (decl_description declaration) [],
                         tool_parameters = parameters\<rparr>, \<sigma>2))))"

fun convertDeclarations ::
  "(json \<Rightarrow> string) \<Rightarrow> (string \<Rightarrow> json option) \<Rightarrow> store \<Rightarrow> FunctionDeclaration list
     \<Rightarrow> toolsError + (OpenAILikeTool list \<times> store)" where
  "convertDeclarations stringify parse \<sigma> [] = Inr ([], \<sigma>)"
| "convertDeclarations stringify parse \<sigma> (d # ds) =
     (case convertDeclaration stringify parse \<sigma> d of
        Inl e \<Rightarrow> Inl e
      | Inr (tool, \<sigma>') \<Rightarrow>
          (case convertDeclarations stringify parse \<sigma>' ds of
             Inl e \<Rightarrow> Inl e
           | Inr (tools, \<sigma>'') \<Rightarrow> Inr (tool # tools, \<sigma>'')))"

definition convertToOpenAITools ::
  "(json \<Rightarrow> string) \<Rightarrow> (string \<Rightarrow> json option) \<Rightarrow> store \<Rightarrow> FunctionDeclaration list option
     \<Rightarrow> toolsError + (OpenAILikeTool list \<times> store)" where
  "convertToOpenAITools stringify parse \<sigma> functionDeclarations =
     (case functionDeclarations of
        None \<Rightarrow> Inr ([], \<sigma>)
      | Some ds \<Rightarrow> convertDeclarations stringify parse \<sigma> ds)"

text \<open>A declaration whose schema exists and survives \<open>JSON.stringify\<close> and \<open>JSON.parse\<close>.\<close>

definition serializable ::
  "(json \<Rightarrow> string) \<Rightarrow> (string \<Rightarrow> json option) \<Rightarrow> store \<Rightarrow> FunctionDeclaration \<Rightarrow> bool" where
  "serializable stringify parse \<sigma> d =
     (case decl_parameters d of
        None \<Rightarrow> parse (stringify (JObj [])) \<noteq> None
      | Some a \<Rightarrow> a < length \<sigma> \<and> parse (stringify (\<sigma> ! a)) \<noteq> None)"

text \<open>A store with one schema, and two declarations: one refers to it, one has no parameters.\<close>

definition weatherSchema :: json where
  "weatherSchema =
     JObj [(''type'', JStr ''OBJECT''),
           (''properties'',
            JObj [(''city'', JObj [(''type'', JStr ''STRING'')]),
                  (''days'', JObj [(''type'', JStr ''ARRAY''),
                                   (''items'', JObj [(''type'', JStr ''INTEGER'')])]),
                  (''unit'', JObj [(''anyOf'', JArr [JObj [(''type'', JStr ''STRING'')],
                                                     JObj [(''type'', JStr ''NULL'')]])])]),
           (''required'', JArr [JStr ''city''])]"

definition weatherDeclarations :: "FunctionDeclaration list" where
  "weatherDeclarations =
     [\<lparr>decl_name = Some ''get_weather'', decl_description = Some ''Weather for a city'',
       decl_parameters = Some 0\<rparr>,
      \<lparr>decl_name = None, decl_description = None, decl_parameters = None\<rparr>]"

section \<open>Tolerant JSON extraction\<close>

subsection \<open>extractJsonFromPosition\<close>

text \<open>
  The loop of \<open>extractJsonFromPosition\<close> from index \<open>i\<close> on, with its three variables; the
  result is the index of the bracket that closes the first one, \<open>None\<close> when the text ends
  before. A backslash escapes the next character inside and outside a string literal.
\<close>

fun matchBracket ::
  "char \<Rightarrow> char \<Rightarrow> int \<Rightarrow> bool \<Rightarrow> bool \<Rightarrow> nat \<Rightarrow> string \<Rightarrow> nat option" where
  "matchBracket openChar closeChar bracketCount inString escapeNext i [] = None"
| "matchBracket openChar closeChar bracketCount inString escapeNext i (currentChar # rest) =
     (if escapeNext then matchBracket openChar closeChar bracketCount inString False (Suc i) rest
      else if currentChar = CHR 0x5C
        then matchBracket openChar closeChar bracketCount inString True (Suc i) rest
      else if currentChar = CHR 0x22
        then matchBracket openChar closeChar bracketCount (\<not> inString) escapeNext (Suc i) rest
      else if \<not> inString then
        (if currentChar = openChar
           then matchBracket openChar closeChar (bracketCount + 1) inString escapeNext (Suc i) rest
         else if currentChar = closeChar then
           (if bracketCount - 1 = 0 then Some i
            else matchBracket openChar closeChar (bracketCount - 1) inString escapeNext (Suc i) rest)
         else matchBracket openChar closeChar bracketCount inString escapeNext (Suc i) rest)
      else matchBracket openChar closeChar bracketCount inString escapeNext (Suc i) rest)"

text \<open>\<open>text.substring(from, to)\<close> for \<open>from \<le> to\<close>.\<close>

definition substring :: "string \<Rightarrow> nat \<Rightarrow> nat \<Rightarrow> string" where
  "substring s from to = take (to - from) (drop from s)"

definition extractJsonFromPosition :: "string \<Rightarrow> nat \<Rightarrow> string option" where
  "extractJsonFromPosition text' startIndex =
     (if startIndex < length text' \<and>
         (text' ! startIndex = CHR ''{'' \<or> text' ! startIndex = CHR ''['') then
        (let isObject = (text' ! startIndex = CHR ''{'');
             openChar = (if isObject then CHR ''{'' else CHR ''['');
             closeChar = (if isObject then CHR ''}'' else CHR '']'')
         in case matchBracket openChar closeChar 0 False False startIndex (drop startIndex text') of
              None \<Rightarrow> None
            | Some i \<Rightarrow> Some (substring text' startIndex (i + 1)))
      else None)"

subsection \<open>The two patterns for fenced code blocks\<close>

text \<open>
  A fence is three backticks. Both patterns are
  \<open>```(?:json|JSON)?\s*\n?([\s\S]*?)\n?```\<close>, the first one anchored at both ends. After
  the opening fence the tag and the white space are taken greedily; neither holds a
  backtick, so a closing fence is never before the place where they end, and the first
  attempt of the matcher is the one that succeeds when any does. The lazy group then ends
  at the first place where a fence, or a newline and a fence, follows (at the end of the
  text, for the anchored pattern). The result is the captured group.
\<close>

definition fence :: string where
  "fence = ''```''"


text \<open>The text after the first fence.\<close>

fun afterFence :: "string \<Rightarrow> string option" where
  "afterFence [] = None"
| "afterFence (c # cs) = (if startsWith (c # cs) fence then Some (drop 3 (c # cs)) else afterFence cs)"

definition skipTag :: "string \<Rightarrow> string" where
  "skipTag rest =
     dropWhile isSpace
       (if startsWith rest ''json'' \<or> startsWith rest ''JSON'' then drop 4 rest else rest)"

text \<open>The lazy group: up to the first closing fence, without the newline before it.\<close>

fun lazyGroup :: "string \<Rightarrow> string option" where
  "lazyGroup [] = None"
| "lazyGroup (c # cs) =
     (if startsWith (c # cs) (CHR 0x0A # fence) \<or> startsWith (c # cs) fence then Some []
      else map_option ((#) c) (lazyGroup cs))"

definition codeBlockPattern :: "string \<Rightarrow> string option" where
  "codeBlockPattern s =
     (if startsWith s fence \<and> 6 \<le> length s \<and> drop (length s - 3) s = fence then
        (let body = skipTag (drop 3 s);
             inner = take (length body - 3) body
         in Some (if inner \<noteq> [] \<and> last inner = CHR 0x0A then butlast inner else inner))
      else None)"

definition codeBlockWithTextPattern :: "string \<Rightarrow> string option" where
  "codeBlockWithTextPattern s =
     (case afterFence s of
        None \<Rightarrow> None
      | Some rest \<Rightarrow> lazyGroup (skipTag rest))"


subsection \<open>The fallback patterns\<close>

text \<open>\<open>cleaned.match(/[\{\[]/)\<close>: the text from the first bracket on.\<close>

definition fromFirstBracket :: "string \<Rightarrow> string option" where
  "fromFirstBracket s =
     (case dropWhile (\<lambda>c. c \<noteq> CHR ''{'' \<and> c \<noteq> CHR ''['') s of
        [] \<Rightarrow> None
      | candidateFromStart \<Rightarrow> Some candidateFromStart)"

text \<open>The loop of pattern 4, which counts brackets without regard to string literals.\<close>

fun findEndIndex :: "char \<Rightarrow> char \<Rightarrow> int \<Rightarrow> nat \<Rightarrow> string \<Rightarrow> nat option" where
  "findEndIndex openChar closeChar bracketCount i [] = None"
| "findEndIndex openChar closeChar bracketCount i (char # rest) =
     (if char = openChar then findEndIndex openChar closeChar (bracketCount + 1) (Suc i) rest
      else if char = closeChar then
        (if bracketCount - 1 = 0 then Some i
         else findEndIndex openChar closeChar (bracketCount - 1) (Suc i) rest)
      else findEndIndex openChar closeChar bracketCount (Suc i) rest)"

definition prefixToMatchingBracket :: "string \<Rightarrow> string option" where
  "prefixToMatchingBracket candidateFromStart =
     (let isObject = (candidateFromStart \<noteq> [] \<and> hd candidateFromStart = CHR ''{'');
          openChar = (if isObject then CHR ''{'' else CHR ''['');
          closeChar = (if isObject then CHR ''}'' else CHR '']'')
      in case findEndIndex openChar closeChar 0 0 candidateFromStart of
           None \<Rightarrow> None
         | Some endIndex \<Rightarrow> Some (substring candidateFromStart 0 (endIndex + 1)))"

text \<open>
  Pattern 5, \<open>^.*?(\{[\s\S]*\}|\[[\s\S]*\]).*?$\<close>. The dot matches no line terminator, so
  the group starts at the first bracket that has no line terminator before it and a
  closing bracket of its kind after it with no line terminator behind; it ends at the
  last such closing bracket, the star being greedy.
\<close>

definition isLineTerminator :: "char \<Rightarrow> bool" where
  "isLineTerminator c = (c = CHR 0x0A \<or> c = CHR 0x0D)"

text \<open>The longest prefix that ends with \<open>closeChar\<close> and leaves no line terminator behind.\<close>

fun greedyGroup :: "char \<Rightarrow> string \<Rightarrow> string option" where
  "greedyGroup closeChar [] = None"
| "greedyGroup closeChar (c # cs) =
     (case greedyGroup closeChar cs of
        Some g \<Rightarrow> Some (c # g)
      | None \<Rightarrow> if c = closeChar \<and> \<not> list_ex isLineTerminator cs then Some [c] else None)"

fun jsonWithContextPattern :: "string \<Rightarrow> string option" where
  "jsonWithContextPattern [] = None"
| "jsonWithContextPattern (c # cs) =
     (case (if c = CHR ''{'' then greedyGroup (CHR ''}'') cs
            else if c = CHR ''['' then greedyGroup (CHR '']'') cs
            else None) of
        Some g \<Rightarrow> Some (c # g)
      | None \<Rightarrow> if isLineTerminator c then None else jsonWithContextPattern cs)"

subsection \<open>extractJsonFromText\<close>

text \<open>The candidates of pattern 3, in the order of their start positions.\<close>

definition jsonCandidates :: "string \<Rightarrow> string list" where
  "jsonCandidates trimmed =
     List.map_filter
       (\<lambda>i. if trimmed ! i = CHR ''{'' \<or> trimmed ! i = CHR ''[''
            then extractJsonFromPosition trimmed i else None)
       [0..<length trimmed]"

text \<open>\<open>sort((a, b) => b.length - a.length)\<close>: stable, longest first.\<close>

definition sortLongestFirst :: "string list \<Rightarrow> string list" where
  "sortLongestFirst xs = sort_key (\<lambda>s. - int (length s)) xs"

definition isValidJson :: "(string \<Rightarrow> json option) \<Rightarrow> string \<Rightarrow> bool" where
  "isValidJson parse s = (parse s \<noteq> None)"

definition extractJsonFromText :: "(string \<Rightarrow> json option) \<Rightarrow> string \<Rightarrow> string" where
  "extractJsonFromText parse text' =
     (let trimmed = trim text' in
      case codeBlockPattern trimmed of
        Some captured \<Rightarrow> trim captured
      | None \<Rightarrow>
     (case codeBlockWithTextPattern trimmed of
        Some captured \<Rightarrow> trim captured
      | None \<Rightarrow>
     (case find (isValidJson parse) (sortLongestFirst (jsonCandidates trimmed)) of
        Some candidate \<Rightarrow> candidate
      | None \<Rightarrow>
     (case (case fromFirstBracket trimmed of
              None \<Rightarrow> None
            | Some candidateFromStart \<Rightarrow>
                (case prefixToMatchingBracket candidateFromStart of
                   None \<Rightarrow> None
                 | Some candidate \<Rightarrow> if isValidJson parse candidate then Some candidate else None)) of
        Some candidate \<Rightarrow> candidate
      | None \<Rightarrow>
     (case (case jsonWithContextPattern trimmed of
              None \<Rightarrow> None
            | Some captured \<Rightarrow>
                if isValidJson parse (trim captured) then Some (trim captured) else None) of
        Some candidate \<Rightarrow> candidate
      | None \<Rightarrow> trimmed)))))"

text \<open>\<open>parseJsonFromText\<close>: \<open>None\<close> is the error that \<open>JSON.parse\<close> throws.\<close>

definition parseJsonFromText :: "(string \<Rightarrow> json option) \<Rightarrow> string \<Rightarrow> json option" where
  "parseJsonFromText parse text' = parse (extractJsonFromText parse text')"

section \<open>Evaluating the JSON parser\<close>

lemmas JSON_parse_eval =
  JSON_parse_def tokenize_def lexDefault_def isJsonWs_def isDigit_def isLowerAlpha_def
  finishWord_def finishNumber_def validNumber_def validFraction_def validExponent_def
  mkObject_def isNumberChar_def unescape_def isHexDigit_def hexValue_def
section \<open>Properties of the message converter\<close>

lemma convertLoop_concat:
  "convertLoop stringify now k messages cs =
     messages @ concat (map (\<lambda>(j, c). convertContent stringify (now j) c) (enumerate k cs))"
  by (induction cs arbitrary: k messages) simp_all

lemma convertToOpenAIMessages_concat:
  "convertToOpenAIMessages stringify now cs =
     concat (map (\<lambda>(j, c). convertContent stringify (now j) c) (enumerate 0 cs))"
  by (simp add: convertToOpenAIMessages_def convertLoop_concat)

lemma filter_nil_iff: "filter P xs = [] \<longleftrightarrow> (\<forall>x \<in> set xs. \<not> P x)"
  by (induction xs) auto

lemma convertToOpenAIMessages_append:
  "convertToOpenAIMessages stringify now (pre @ c # post) =
     convertToOpenAIMessages stringify now pre @
     convertContent stringify (now (length pre)) c @
     convertToOpenAIMessages stringify (\<lambda>k. now (Suc (length pre) + k)) post"
proof -
  have shift: "map (\<lambda>(j, c). convertContent stringify (now j) c) (enumerate n xs) =
      map (\<lambda>(j, c). convertContent stringify (now (n + j)) c) (enumerate 0 xs)" for n xs
    by (induction xs arbitrary: n) (simp_all add: enumerate_Suc_eq[of 0] case_prod_beta comp_def)
  show ?thesis
    by (simp add: convertToOpenAIMessages_concat enumerate_append_eq shift[of "Suc (length pre)"])
qed

lemma join_single_char_text:
  "(case m of None \<Rightarrow> [] | Some t \<Rightarrow> t) = orElse m []"
  by (simp add: orElse_def split: option.splits)

lemma countTokens_char:
  "countTokens stringify now contents =
     (length (totalTextOf (convertToOpenAIMessages stringify now (toContents contents))) + 3) div 4"
proof -
  have "nat \<lceil>(of_nat n :: rat) / 4\<rceil> = (n + 3) div 4" for n :: nat
  proof -
    have "\<lceil>(of_nat n :: rat) / 4\<rceil> = \<lceil>(of_int (int n) :: rat) / of_int 4\<rceil>" by simp
    also have "\<dots> = - ((- int n) div 4)" by (simp only: ceiling_divide_eq_div)
    also have "\<dots> = int ((n + 3) div 4)" by (simp add: zdiv_int)
    finally show ?thesis by simp
  qed
  then show ?thesis by (simp add: countTokens_def Let_def)
qed

lemma convertContent_textOnly:
  assumes "textOnlyTurn c"
  shows "\<exists>m. convertContent stringify now c = [m] \<and> m_role m = mapRole (role c)"
proof -
  from assms obtain ps where ps: "parts c = Some ps"
    and t: "\<exists>p \<in> set ps. part_text p \<noteq> None"
    and n: "\<forall>p \<in> set ps. functionCall p = None \<and> functionResponse p = None"
    by (auto simp: textOnlyTurn_def split: option.splits)
  have a: "filter (\<lambda>p. functionCall p \<noteq> None) ps = []"
    and b: "filter (\<lambda>p. functionResponse p \<noteq> None) ps = []"
    using n by (auto simp: filter_nil_iff)
  have c: "filter (\<lambda>p. part_text p \<noteq> None) ps \<noteq> []"
    using t by (auto simp: filter_nil_iff)
  show ?thesis
    using a b c by (simp add: convertContent_def ps Let_def)
qed

lemma convertLoop_textOnly:
  assumes "\<forall>c \<in> set cs. textOnlyTurn c"
  shows "length (convertLoop stringify now k messages cs) = length messages + length cs \<and>
         (\<forall>i < length cs. m_role (convertLoop stringify now k messages cs ! (length messages + i))
              = mapRole (role (cs ! i))) \<and>
         (\<forall>i < length messages. convertLoop stringify now k messages cs ! i = messages ! i)"
  using assms
proof (induction cs arbitrary: k messages)
  case Nil
  then show ?case by simp
next
  case (Cons c cs)
  from Cons.prems have "textOnlyTurn c" by simp
  then obtain m where m: "convertContent stringify (now k) c = [m]" "m_role m = mapRole (role c)"
    using convertContent_textOnly by blast
  have IH: "length (convertLoop stringify now (Suc k) (messages @ [m]) cs) = length (messages @ [m]) + length cs \<and>
         (\<forall>i < length cs. m_role (convertLoop stringify now (Suc k) (messages @ [m]) cs ! (length (messages @ [m]) + i))
              = mapRole (role (cs ! i))) \<and>
         (\<forall>i < length (messages @ [m]). convertLoop stringify now (Suc k) (messages @ [m]) cs ! i = (messages @ [m]) ! i)"
    using Cons.IH[of "Suc k" "messages @ [m]"] Cons.prems by simp
  show ?case
  proof (intro conjI allI impI)
    show "length (convertLoop stringify now k messages (c # cs)) = length messages + length (c # cs)"
      using IH by (simp add: m)
  next
    fix i assume "i < length (c # cs)"
    show "m_role (convertLoop stringify now k messages (c # cs) ! (length messages + i)) = mapRole (role ((c # cs) ! i))"
    proof (cases i)
      case 0
      then show ?thesis using IH m by (simp add: nth_append)
    next
      case (Suc j)
      then show ?thesis using IH m \<open>i < length (c # cs)\<close> by simp
    qed
  next
    fix i assume "i < length messages"
    then show "convertLoop stringify now k messages (c # cs) ! i = messages ! i"
      using IH m by (simp add: nth_append)
  qed
qed

text \<open>
  Claim C6. For a conversation of text turns only (each turn has a text part and no
  function-call or function-result part) the output has one message per turn, and the
  role of the message at position \<open>i\<close> is \<open>assistant\<close> when the turn's role is \<open>model\<close> and
  the turn's role otherwise.
\<close>
theorem text_turns_one_message_each:
  assumes "\<forall>c \<in> set contents. textOnlyTurn c"
  shows "length (convertToOpenAIMessages stringify now contents) = length contents \<and>
         (\<forall>i < length contents.
            m_role (convertToOpenAIMessages stringify now contents ! i) =
              (if role (contents ! i) = Some ''model'' then Some ''assistant''
               else role (contents ! i)))"
  using convertLoop_textOnly[OF assms, of stringify now 0 "[]"]
  by (simp add: convertToOpenAIMessages_def mapRole_def)

text \<open>Witness for C6: a model turn followed by a user turn.\<close>
theorem text_turns_one_message_each_witness:
  "length (convertToOpenAIMessages JSON_stringify clock0
      [\<lparr>role = Some ''model'', parts = Some [textPart ''Hello'']\<rparr>,
       \<lparr>role = Some ''user'', parts = Some [textPart ''Hi'', textPart ''there'']\<rparr>]) = 2 \<and>
   m_role (convertToOpenAIMessages JSON_stringify clock0
      [\<lparr>role = Some ''model'', parts = Some [textPart ''Hello'']\<rparr>,
       \<lparr>role = Some ''user'', parts = Some [textPart ''Hi'', textPart ''there'']\<rparr>] ! 0)
     = Some ''assistant'' \<and>
   m_role (convertToOpenAIMessages JSON_stringify clock0
      [\<lparr>role = Some ''model'', parts = Some [textPart ''Hello'']\<rparr>,
       \<lparr>role = Some ''user'', parts = Some [textPart ''Hi'', textPart ''there'']\<rparr>] ! 1)
     = Some ''user''"
proof -
  let ?cs = "[\<lparr>role = Some ''model'', parts = Some [textPart ''Hello'']\<rparr>,
       \<lparr>role = Some ''user'', parts = Some [textPart ''Hi'', textPart ''there'']\<rparr>]"
  have h: "\<forall>c \<in> set ?cs. textOnlyTurn c"
    by (simp add: textOnlyTurn_def textPart_def)
  note t = text_turns_one_message_each[OF h, of JSON_stringify clock0]
  from t have l: "length (convertToOpenAIMessages JSON_stringify clock0 ?cs) = 2" by simp
  from t have r0: "m_role (convertToOpenAIMessages JSON_stringify clock0 ?cs ! 0) = Some ''assistant''"
    by (auto dest: spec[of _ 0])
  from t have r1: "m_role (convertToOpenAIMessages JSON_stringify clock0 ?cs ! 1) = Some ''user''"
    by (auto dest: spec[of _ 1])
  from l r0 r1 show ?thesis by blast
qed

text \<open>
  Claim C9. \<open>countTokens\<close> returns the ceiling of \<open>L / 4\<close>, where \<open>L\<close> is the length of the
  converted messages' text contents joined by single spaces; for \<open>L = 400\<close> it returns 100.
\<close>
theorem countTokens_ceiling:
  fixes stringify now contents
  defines "L \<equiv> length (join '' '' (map (\<lambda>m. case m_content m of None \<Rightarrow> [] | Some t \<Rightarrow> t)
                      (convertToOpenAIMessages stringify now (toContents contents))))"
  shows "int (countTokens stringify now contents) = \<lceil>real L / 4\<rceil> \<and>
         (L = 400 \<longrightarrow> countTokens stringify now contents = 100)"
proof -
  have L: "L = length (totalTextOf (convertToOpenAIMessages stringify now (toContents contents)))"
    by (simp add: L_def totalTextOf_def join_single_char_text)
  have c: "countTokens stringify now contents = (L + 3) div 4"
    by (simp add: countTokens_char L)
  have "\<lceil>real L / 4\<rceil> = \<lceil>(of_int (int L) :: real) / of_int 4\<rceil>" by simp
  also have "\<dots> = - ((- int L) div 4)" by (simp only: ceiling_divide_eq_div)
  also have "\<dots> = int ((L + 3) div 4)" by (simp add: zdiv_int)
  finally have "int (countTokens stringify now contents) = \<lceil>real L / 4\<rceil>"
    using c by simp
  moreover have "L = 400 \<longrightarrow> countTokens stringify now contents = 100"
    using c by simp
  ultimately show ?thesis by blast
qed

text \<open>Witness for C9: two strings of lengths 199 and 200, joined by one space.\<close>
theorem countTokens_ceiling_witness:
  "length (join '' '' (map (\<lambda>m. case m_content m of None \<Rightarrow> [] | Some t \<Rightarrow> t)
       (convertToOpenAIMessages JSON_stringify clock0
          (toContents (Many [IsString (replicate 199 CHR ''a''), IsString (replicate 200 CHR ''b'')]))))) = 400 \<and>
   countTokens JSON_stringify clock0
     (Many [IsString (replicate 199 CHR ''a''), IsString (replicate 200 CHR ''b'')]) = 100"
proof -
  have l: "length (join '' '' (map (\<lambda>m. case m_content m of None \<Rightarrow> [] | Some t \<Rightarrow> t)
       (convertToOpenAIMessages JSON_stringify clock0
          (toContents (Many [IsString (replicate 199 CHR ''a''), IsString (replicate 200 CHR ''b'')]))))) = 400"
    by (simp add: convertToOpenAIMessages_def convertContent_def mapRole_def Let_def)
  with countTokens_ceiling[of JSON_stringify clock0
      "Many [IsString (replicate 199 CHR ''a''), IsString (replicate 200 CHR ''b'')]"]
  show ?thesis by blast
qed

lemma convertContent_functionCalls:
  assumes ps: "parts c = Some ps" and ex: "\<exists>p \<in> set ps. functionCall p \<noteq> None"
  shows "convertContent stringify now c =
     [\<lparr>m_role = mapRole (role c),
       m_content = (let t = join [CHR 0x0A] (map (\<lambda>p. the (part_text p)) (filter (\<lambda>p. part_text p \<noteq> None) ps))
                    in if t = [] then None else Some t),
       m_tool_calls = Some (map (toolCallOfPart stringify now)
                              (enumerate 0 (filter (\<lambda>p. functionCall p \<noteq> None) ps))),
       m_tool_call_id = None\<rparr>]"
proof -
  have "filter (\<lambda>p. functionCall p \<noteq> None) ps \<noteq> []"
    using ex by (auto simp: filter_nil_iff)
  then show ?thesis by (simp add: convertContent_def ps Let_def)
qed

text \<open>
  Claim C4, as amended. A turn with at least one function-call part contributes exactly
  one wire message, at the turn's place in the output. Its role is the turn's mapped role
  (\<open>assistant\<close> when the turn's role is \<open>model\<close>, the turn's own role otherwise); its content
  is the newline-joined text of the turn's text parts, or \<open>null\<close> when that is the empty
  string; its tool calls are, in order, one per function-call part, with the part's id
  when it is a non-empty string and \<open>call_<timestamp>_<index>\<close> otherwise, and with the
  serialised arguments of the part, the empty object standing for arguments that are
  absent or falsy (\<open>args || {}\<close>).
\<close>
theorem function_call_turn_one_message:
  fixes stringify now pre c post ps
  assumes ps: "parts c = Some ps" and ex: "\<exists>p \<in> set ps. functionCall p \<noteq> None"
  defines "calls \<equiv> map (\<lambda>p. the (functionCall p)) (filter (\<lambda>p. functionCall p \<noteq> None) ps)"
  defines "txt \<equiv> join [CHR 0x0A] (map (\<lambda>p. the (part_text p)) (filter (\<lambda>p. part_text p \<noteq> None) ps))"
  shows "\<exists>m tcs.
     convertToOpenAIMessages stringify now (pre @ c # post) =
       convertToOpenAIMessages stringify now pre @ [m] @
       convertToOpenAIMessages stringify (\<lambda>k. now (Suc (length pre) + k)) post \<and>
     m_role m = (if role c = Some ''model'' then Some ''assistant'' else role c) \<and>
     m_content m = (if txt = [] then None else Some txt) \<and>
     m_tool_call_id m = None \<and>
     m_tool_calls m = Some tcs \<and> length tcs = length calls \<and>
     (\<forall>i < length calls.
        tc_id (tcs ! i) =
          (case fc_id (calls ! i) of
             None \<Rightarrow> ''call_'' @ show_nat (now (length pre) i) @ ''_'' @ show_nat i
           | Some x \<Rightarrow> if x = [] then ''call_'' @ show_nat (now (length pre) i) @ ''_'' @ show_nat i
                       else x) \<and>
        tc_type (tcs ! i) = ''function'' \<and>
        tc_name (tcs ! i) = fc_name (calls ! i) \<and>
        tc_arguments (tcs ! i) =
          stringify (case fc_args (calls ! i) of
                       None \<Rightarrow> JObj []
                     | Some a \<Rightarrow> if truthyValue a then a else JObj []))"
proof -
  let ?fps = "filter (\<lambda>p. functionCall p \<noteq> None) ps"
  let ?tcs = "map (toolCallOfPart stringify (now (length pre))) (enumerate 0 ?fps)"
  let ?m = "\<lparr>m_role = mapRole (role c),
       m_content = (if txt = [] then None else Some txt),
       m_tool_calls = Some ?tcs, m_tool_call_id = None\<rparr>"
  have cc: "convertContent stringify (now (length pre)) c = [?m]"
    using convertContent_functionCalls[OF ps ex, of stringify "now (length pre)"]
    by (simp add: txt_def Let_def)
  have 1: "convertToOpenAIMessages stringify now (pre @ c # post) =
       convertToOpenAIMessages stringify now pre @ [?m] @
       convertToOpenAIMessages stringify (\<lambda>k. now (Suc (length pre) + k)) post"
    by (simp add: convertToOpenAIMessages_append cc)
  have len: "length ?tcs = length calls" by (simp add: calls_def)
  have each: "tc_id (?tcs ! i) =
          (case fc_id (calls ! i) of
             None \<Rightarrow> ''call_'' @ show_nat (now (length pre) i) @ ''_'' @ show_nat i
           | Some x \<Rightarrow> if x = [] then ''call_'' @ show_nat (now (length pre) i) @ ''_'' @ show_nat i
                       else x) \<and>
        tc_type (?tcs ! i) = ''function'' \<and>
        tc_name (?tcs ! i) = fc_name (calls ! i) \<and>
        tc_arguments (?tcs ! i) =
          stringify (case fc_args (calls ! i) of
                       None \<Rightarrow> JObj []
                     | Some a \<Rightarrow> if truthyValue a then a else JObj [])"
    if "i < length calls" for i
  proof -
    from that have i: "i < length ?fps" by (simp add: calls_def)
    then have "?tcs ! i = toolCallOfPart stringify (now (length pre)) (i, ?fps ! i)"
      by (simp add: nth_enumerate_eq)
    moreover have "calls ! i = the (functionCall (?fps ! i))"
      using i by (simp add: calls_def)
    ultimately show ?thesis
      by (simp add: toolCallOfPart_def valueOrElse_def Let_def truthy_def split: option.splits)
  qed
  show ?thesis
    apply (rule exI[of _ ?m], rule exI[of _ ?tcs])
    using 1 len each by (simp add: mapRole_def)
qed

text \<open>
  Witness for C4: a model turn with two text parts and three function calls, of which one
  has no arguments and one has the falsy arguments \<open>0\<close>.
\<close>
theorem function_call_turn_one_message_witness:
  "\<exists>m tcs.
     convertToOpenAIMessages JSON_stringify clock0
       [\<lparr>role = Some ''model'',
         parts = Some [textPart ''Checking'',
                       callPart \<lparr>fc_id = None, fc_name = Some ''get_weather'',
                                 fc_args = Some (JObj [(''city'', JStr ''Paris'')])\<rparr>,
                       textPart ''now'',
                       callPart \<lparr>fc_id = Some ''call_7'', fc_name = Some ''get_time'',
                                 fc_args = None\<rparr>,
                       callPart \<lparr>fc_id = Some [], fc_name = Some ''get_date'',
                                 fc_args = Some (JNum ''0'')\<rparr>]\<rparr>] = [m] \<and>
     m_role m = Some ''assistant'' \<and>
     m_content m = Some (''Checking'' @ [CHR 0x0A] @ ''now'') \<and>
     m_tool_call_id m = None \<and>
     m_tool_calls m = Some tcs \<and> length tcs = 3 \<and>
     tc_id (tcs ! 0) = ''call_1700000000000_0'' \<and>
     tc_name (tcs ! 0) = Some ''get_weather'' \<and>
     tc_arguments (tcs ! 0) = ''{'' @ [CHR 0x22] @ ''city'' @ [CHR 0x22] @ '':'' @ [CHR 0x22] @ ''Paris'' @ [CHR 0x22] @ ''}'' \<and>
     tc_id (tcs ! 1) = ''call_7'' \<and>
     tc_name (tcs ! 1) = Some ''get_time'' \<and>
     tc_arguments (tcs ! 1) = ''{}'' \<and>
     tc_id (tcs ! 2) = ''call_1700000000000_2'' \<and>
     tc_name (tcs ! 2) = Some ''get_date'' \<and>
     tc_arguments (tcs ! 2) = ''{}''"
proof -
  let ?ps = "[textPart ''Checking'',
                       callPart \<lparr>fc_id = None, fc_name = Some ''get_weather'',
                                 fc_args = Some (JObj [(''city'', JStr ''Paris'')])\<rparr>,
                       textPart ''now'',
                       callPart \<lparr>fc_id = Some ''call_7'', fc_name = Some ''get_time'',
                                 fc_args = None\<rparr>,
                       callPart \<lparr>fc_id = Some [], fc_name = Some ''get_date'',
                                 fc_args = Some (JNum ''0'')\<rparr>]"
  let ?c = "\<lparr>role = Some ''model'', parts = Some ?ps\<rparr>"
  have h1: "parts ?c = Some ?ps" by simp
  have h2: "\<exists>p \<in> set ?ps. functionCall p \<noteq> None" by (simp add: callPart_def)
  from function_call_turn_one_message[OF h1 h2, of JSON_stringify clock0 "[]" "[]"]
  show ?thesis
    unfolding numeral_2_eq_2
    by (auto simp: All_less_Suc convertToOpenAIMessages_def textPart_def callPart_def clock0_def
          show_nat.simps digit_char_def quoteJSONString_def quoteJSONChar_def isZeroLiteral_def)
qed

text \<open>
  Counterexample to C4 as stated: a function call in a turn whose role is \<open>user\<close> gives a
  message of role \<open>user\<close>, not \<open>assistant\<close>: the role is never fixed by the branch.
\<close>
theorem function_call_turn_role_counterexample:
  "convertToOpenAIMessages JSON_stringify clock0
     [\<lparr>role = Some ''user'',
       parts = Some [callPart \<lparr>fc_id = Some ''call_1'', fc_name = Some ''get_weather'',
                               fc_args = None\<rparr>]\<rparr>]
   = [\<lparr>m_role = Some ''user'', m_content = None,
       m_tool_calls = Some [\<lparr>tc_id = ''call_1'', tc_type = ''function'',
                              tc_name = Some ''get_weather'', tc_arguments = ''{}''\<rparr>],
       m_tool_call_id = None\<rparr>] \<and>
   m_role (hd (convertToOpenAIMessages JSON_stringify clock0
     [\<lparr>role = Some ''user'',
       parts = Some [callPart \<lparr>fc_id = Some ''call_1'', fc_name = Some ''get_weather'',
                               fc_args = None\<rparr>]\<rparr>])) \<noteq> Some ''assistant''"
  by (simp add: convertToOpenAIMessages_def convertContent_def callPart_def mapRole_def
        toolCallOfPart_def valueOrElse_def truthy_def Let_def)

text \<open>
  Claim C10, as amended. A turn with both function-call and function-result parts
  contributes only the single tool-calls message of the first branch, with the turn's
  mapped role; it carries no \<open>tool_call_id\<close>, and none of the tool-result messages that
  the second branch would build from the function-result parts is emitted.
\<close>
theorem mixed_turn_only_tool_calls_message:
  assumes ps: "parts c = Some ps"
    and fc: "\<exists>p \<in> set ps. functionCall p \<noteq> None"
    and fr: "\<exists>p \<in> set ps. functionResponse p \<noteq> None"
  shows "\<exists>m.
     convertToOpenAIMessages stringify now (pre @ c # post) =
       convertToOpenAIMessages stringify now pre @ [m] @
       convertToOpenAIMessages stringify (\<lambda>k. now (Suc (length pre) + k)) post \<and>
     m_role m = (if role c = Some ''model'' then Some ''assistant'' else role c) \<and>
     m_tool_calls m =
       Some (map (toolCallOfPart stringify (now (length pre)))
               (enumerate 0 (filter (\<lambda>p. functionCall p \<noteq> None) ps))) \<and>
     m_tool_call_id m = None \<and>
     (\<forall>p \<in> set ps. functionResponse p \<noteq> None \<longrightarrow> m \<noteq> toolMessageOfPart stringify p)"
proof -
  let ?m = "\<lparr>m_role = mapRole (role c),
       m_content = (let t = join [CHR 0x0A] (map (\<lambda>p. the (part_text p)) (filter (\<lambda>p. part_text p \<noteq> None) ps))
                    in if t = [] then None else Some t),
       m_tool_calls = Some (map (toolCallOfPart stringify (now (length pre)))
                              (enumerate 0 (filter (\<lambda>p. functionCall p \<noteq> None) ps))),
       m_tool_call_id = None\<rparr>"
  have cc: "convertContent stringify (now (length pre)) c = [?m]"
    by (rule convertContent_functionCalls[OF ps fc])
  have "?m \<noteq> toolMessageOfPart stringify p" for p
  proof
    assume "?m = toolMessageOfPart stringify p"
    then have "m_tool_calls ?m = m_tool_calls (toolMessageOfPart stringify p)" by simp
    then show False by (simp add: toolMessageOfPart_def Let_def)
  qed
  then show ?thesis
    by (intro exI[of _ ?m]) (simp add: convertToOpenAIMessages_append cc mapRole_def)
qed

text \<open>Witness for C10: a model turn with a call, a result and a text part.\<close>
theorem mixed_turn_only_tool_calls_message_witness:
  "convertToOpenAIMessages JSON_stringify clock0
     [\<lparr>role = Some ''model'',
       parts = Some [callPart \<lparr>fc_id = Some ''call_1'', fc_name = Some ''get_weather'',
                               fc_args = None\<rparr>,
                     resultPart \<lparr>fr_id = Some ''call_0'', fr_name = Some ''get_time'',
                                 fr_response = Some (JObj [(''t'', JNum ''12'')])\<rparr>,
                     textPart ''ok'']\<rparr>]
   = [\<lparr>m_role = Some ''assistant'', m_content = Some ''ok'',
       m_tool_calls = Some [\<lparr>tc_id = ''call_1'', tc_type = ''function'',
                              tc_name = Some ''get_weather'', tc_arguments = ''{}''\<rparr>],
       m_tool_call_id = None\<rparr>]"
proof -
  let ?ps = "[callPart \<lparr>fc_id = Some ''call_1'', fc_name = Some ''get_weather'',
                               fc_args = None\<rparr>,
                     resultPart \<lparr>fr_id = Some ''call_0'', fr_name = Some ''get_time'',
                                 fr_response = Some (JObj [(''t'', JNum ''12'')])\<rparr>,
                     textPart ''ok'']"
  let ?c = "\<lparr>role = Some ''model'', parts = Some ?ps\<rparr>"
  have h1: "parts ?c = Some ?ps" by simp
  have h2: "\<exists>p \<in> set ?ps. functionCall p \<noteq> None" by (simp add: callPart_def)
  have h3: "\<exists>p \<in> set ?ps. functionResponse p \<noteq> None" by (simp add: resultPart_def)
  from mixed_turn_only_tool_calls_message[OF h1 h2 h3, of JSON_stringify clock0 "[]" "[]"]
  obtain m where m: "convertToOpenAIMessages JSON_stringify clock0 [?c] = [m]"
    by (auto simp: convertToOpenAIMessages_def)
  then show ?thesis
    by (simp add: convertToOpenAIMessages_def convertContent_def callPart_def resultPart_def
          textPart_def mapRole_def toolCallOfPart_def valueOrElse_def truthy_def Let_def)
qed

text \<open>
  Counterexample to C10 as stated: in a turn of role \<open>user\<close> the single message has role
  \<open>user\<close>, so it is not an assistant-role message.
\<close>
theorem mixed_turn_role_counterexample:
  "convertToOpenAIMessages JSON_stringify clock0
     [\<lparr>role = Some ''user'',
       parts = Some [callPart \<lparr>fc_id = Some ''call_1'', fc_name = Some ''get_weather'',
                               fc_args = None\<rparr>,
                     resultPart \<lparr>fr_id = Some ''call_0'', fr_name = Some ''get_time'',
                                 fr_response = Some (JObj [(''t'', JNum ''12'')])\<rparr>]\<rparr>]
   = [\<lparr>m_role = Some ''user'', m_content = None,
       m_tool_calls = Some [\<lparr>tc_id = ''call_1'', tc_type = ''function'',
                              tc_name = Some ''get_weather'', tc_arguments = ''{}''\<rparr>],
       m_tool_call_id = None\<rparr>] \<and>
   m_role (hd (convertToOpenAIMessages JSON_stringify clock0
     [\<lparr>role = Some ''user'',
       parts = Some [callPart \<lparr>fc_id = Some ''call_1'', fc_name = Some ''get_weather'',
                               fc_args = None\<rparr>,
                     resultPart \<lparr>fr_id = Some ''call_0'', fr_name = Some ''get_time'',
                                 fr_response = Some (JObj [(''t'', JNum ''12'')])\<rparr>]\<rparr>])) \<noteq> Some ''assistant''"
  by (simp add: convertToOpenAIMessages_def convertContent_def callPart_def resultPart_def
        mapRole_def toolCallOfPart_def valueOrElse_def truthy_def Let_def)


section \<open>Properties of the response converter\<close>

lemma mapResult_all_Inr:
  assumes "\<forall>x \<in> set xs. \<exists>y. f x = Inr y"
  shows "mapResult f xs = Inr (map (\<lambda>x. projr (f x)) xs)"
  using assms by (induction xs) auto

lemma mapResult_some_Inl:
  assumes "\<exists>x \<in> set xs. \<exists>e. f x = Inl e"
  shows "\<exists>x \<in> set xs. \<exists>e. f x = Inl e \<and> mapResult f xs = Inl e"
  using assms
proof (induction xs)
  case Nil
  then show ?case by simp
next
  case (Cons a xs)
  show ?case
  proof (cases "f a")
    case (Inl e)
    then show ?thesis by auto
  next
    case (Inr y)
    with Cons.prems have "\<exists>x \<in> set xs. \<exists>e. f x = Inl e" by auto
    from Cons.IH[OF this] obtain x e where "x \<in> set xs" "f x = Inl e" "mapResult f xs = Inl e"
      by blast
    then show ?thesis using Inr by auto
  qed
qed

lemma functionCallOfToolCall_Inr:
  "parse (argumentsText (tc_arguments tc)) = Some v \<Longrightarrow>
   functionCallOfToolCall parse tc =
     Inr \<lparr>fc_id = Some (tc_id tc), fc_name = tc_name tc, fc_args = Some v\<rparr>"
  by (simp add: functionCallOfToolCall_def parseArguments_def orElse_def argumentsText_def)

lemma functionCallOfToolCall_Inl:
  "parse (argumentsText (tc_arguments tc)) = None \<Longrightarrow>
   functionCallOfToolCall parse tc = Inl (SyntaxError (argumentsText (tc_arguments tc)))"
  by (simp add: functionCallOfToolCall_def parseArguments_def orElse_def argumentsText_def)

text \<open>
  Claim C5, as amended. When the first choice carries tool calls, \<open>convertToGeminiResponse\<close>
  parses \<open>arguments || '{}'\<close> for each: if every such text is valid JSON, the parts are the
  text part (for a non-empty content) followed by one function-call part per tool call,
  in order, with the decoded arguments, so the empty argument string decodes as the
  empty object; if some tool call has a non-empty argument string that is not valid JSON,
  the conversion fails with the \<open>SyntaxError\<close> of \<open>JSON.parse\<close>.
\<close>
theorem tool_call_response_decodes_arguments:
  assumes ch: "r_choices response = choice # rest"
    and tcs: "rm_tool_calls (ch_message choice) = Some tcs" and ne: "tcs \<noteq> []"
  shows
    "((\<forall>tc \<in> set tcs. parse (if tc_arguments tc = [] then ''{}'' else tc_arguments tc) \<noteq> None) \<longrightarrow>
        (\<exists>resp cand.
           convertToGeminiResponse parse response = Inr resp \<and>
           candidates resp = [cand] \<and>
           c_parts cand =
             (case rm_content (ch_message choice) of
                None \<Rightarrow> [] | Some t \<Rightarrow> if t = [] then [] else [textPart t]) @
             map (\<lambda>tc. callPart \<lparr>fc_id = Some (tc_id tc), fc_name = tc_name tc,
                         fc_args = parse (if tc_arguments tc = [] then ''{}'' else tc_arguments tc)\<rparr>)
               tcs)) \<and>
     ((\<exists>tc \<in> set tcs. tc_arguments tc \<noteq> [] \<and> parse (tc_arguments tc) = None) \<longrightarrow>
        (\<exists>text. parse text = None \<and>
           convertToGeminiResponse parse response = Inl (SyntaxError text)))"
proof (intro conjI impI)
  assume ok: "\<forall>tc \<in> set tcs. parse (if tc_arguments tc = [] then ''{}'' else tc_arguments tc) \<noteq> None"
  let ?f = "functionCallOfToolCall parse"
  have each: "?f tc = Inr \<lparr>fc_id = Some (tc_id tc), fc_name = tc_name tc,
       fc_args = parse (if tc_arguments tc = [] then ''{}'' else tc_arguments tc)\<rparr>"
    if "tc \<in> set tcs" for tc
  proof -
    from ok that obtain v where v: "parse (argumentsText (tc_arguments tc)) = Some v"
      by (auto simp: argumentsText_def)
    from functionCallOfToolCall_Inr[of parse tc v, OF v] v show ?thesis by (simp add: argumentsText_def)
  qed
  then have "\<forall>tc \<in> set tcs. \<exists>y. ?f tc = Inr y" by blast
  from mapResult_all_Inr[OF this]
  have m: "mapResult ?f tcs = Inr (map (\<lambda>tc. projr (?f tc)) tcs)" .
  have p: "map (\<lambda>tc. projr (?f tc)) tcs =
      map (\<lambda>tc. \<lparr>fc_id = Some (tc_id tc), fc_name = tc_name tc,
         fc_args = parse (if tc_arguments tc = [] then ''{}'' else tc_arguments tc)\<rparr>) tcs"
    using each by (intro map_cong) simp_all
  show "\<exists>resp cand.
           convertToGeminiResponse parse response = Inr resp \<and>
           candidates resp = [cand] \<and>
           c_parts cand =
             (case rm_content (ch_message choice) of
                None \<Rightarrow> [] | Some t \<Rightarrow> if t = [] then [] else [textPart t]) @
             map (\<lambda>tc. callPart \<lparr>fc_id = Some (tc_id tc), fc_name = tc_name tc,
                         fc_args = parse (if tc_arguments tc = [] then ''{}'' else tc_arguments tc)\<rparr>)
               tcs"
    using ne by (simp add: convertToGeminiResponse_def ch tcs m p Let_def candidateOf_def
        truthy_def comp_def split: option.splits)
next
  assume "\<exists>tc \<in> set tcs. tc_arguments tc \<noteq> [] \<and> parse (tc_arguments tc) = None"
  then obtain tc where tc: "tc \<in> set tcs" "parse (argumentsText (tc_arguments tc)) = None"
    by (auto simp: argumentsText_def)
  let ?f = "functionCallOfToolCall parse"
  from tc functionCallOfToolCall_Inl[of parse tc] have "\<exists>x \<in> set tcs. \<exists>e. ?f x = Inl e" by blast
  from mapResult_some_Inl[OF this]
  obtain x e where x: "x \<in> set tcs" "?f x = Inl e" "mapResult ?f tcs = Inl e" by blast
  have "e = SyntaxError (argumentsText (tc_arguments x)) \<and> parse (argumentsText (tc_arguments x)) = None"
  proof (cases "parse (argumentsText (tc_arguments x))")
    case None
    then show ?thesis using x(2) functionCallOfToolCall_Inl[of parse x] by simp
  next
    case (Some v)
    then show ?thesis using x(2) functionCallOfToolCall_Inr[of parse x v] by simp
  qed
  then show "\<exists>text. parse text = None \<and>
           convertToGeminiResponse parse response = Inl (SyntaxError text)"
    using ne x(3) by (auto simp: convertToGeminiResponse_def ch tcs Let_def)
qed

text \<open>Witness for C5: a response with two valid tool calls, and one with a broken one.\<close>
theorem tool_call_response_decodes_arguments_witness:
  \<open>(\<exists>resp cand.
      convertToGeminiResponse JSON_parse weatherResponse = Inr resp \<and>
      candidates resp = [cand] \<and>
      c_parts cand =
        [textPart ''Let me check.'',
         callPart \<lparr>fc_id = Some ''call_1'', fc_name = Some ''get_weather'',
                   fc_args = Some (JObj [(''city'', JStr ''Paris'')])\<rparr>,
         callPart \<lparr>fc_id = Some ''call_2'', fc_name = Some ''get_time'',
                   fc_args = Some (JObj [(''zone'', JNum ''2'')])\<rparr>]) \<and>
   (\<exists>text. JSON_parse text = None \<and>
      convertToGeminiResponse JSON_parse brokenResponse = Inl (SyntaxError text))\<close>
proof -
  let ?tcs = "the (rm_tool_calls (ch_message (hd (r_choices weatherResponse))))"
  have a1: "r_choices weatherResponse = hd (r_choices weatherResponse) # []"
    by (simp add: weatherResponse_def)
  have a2: "rm_tool_calls (ch_message (hd (r_choices weatherResponse))) = Some ?tcs"
    by (simp add: weatherResponse_def)
  have a3: "?tcs \<noteq> []" by (simp add: weatherResponse_def)
  have a4: "\<forall>tc \<in> set ?tcs. JSON_parse (if tc_arguments tc = [] then ''{}'' else tc_arguments tc) \<noteq> None"
    by (simp add: weatherResponse_def JSON_parse_eval)
  from tool_call_response_decodes_arguments[OF a1 a2 a3, of JSON_parse, THEN conjunct1, THEN mp, OF a4]
  have A: "\<exists>resp cand.
      convertToGeminiResponse JSON_parse weatherResponse = Inr resp \<and>
      candidates resp = [cand] \<and>
      c_parts cand =
        [textPart ''Let me check.'',
         callPart \<lparr>fc_id = Some ''call_1'', fc_name = Some ''get_weather'',
                   fc_args = Some (JObj [(''city'', JStr ''Paris'')])\<rparr>,
         callPart \<lparr>fc_id = Some ''call_2'', fc_name = Some ''get_time'',
                   fc_args = Some (JObj [(''zone'', JNum ''2'')])\<rparr>]"
    by (simp add: weatherResponse_def JSON_parse_eval)
  let ?bcs = "the (rm_tool_calls (ch_message (hd (r_choices brokenResponse))))"
  have b1: "r_choices brokenResponse = hd (r_choices brokenResponse) # []"
    by (simp add: brokenResponse_def)
  have b2: "rm_tool_calls (ch_message (hd (r_choices brokenResponse))) = Some ?bcs"
    by (simp add: brokenResponse_def)
  have b3: "?bcs \<noteq> []" by (simp add: brokenResponse_def)
  have b4: "\<exists>tc \<in> set ?bcs. tc_arguments tc \<noteq> [] \<and> JSON_parse (tc_arguments tc) = None"
    by (simp add: brokenResponse_def JSON_parse_eval)
  from tool_call_response_decodes_arguments[OF b1 b2 b3, of JSON_parse, THEN conjunct2, THEN mp, OF b4]
  have B: "\<exists>text. JSON_parse text = None \<and>
      convertToGeminiResponse JSON_parse brokenResponse = Inl (SyntaxError text)" .
  from A B show ?thesis by blast
qed

text \<open>
  Counterexample to C5 as stated: the empty string is not valid JSON, and a tool call
  with the empty argument string is converted, with the empty object as its arguments.
\<close>
theorem empty_arguments_counterexample:
  \<open>JSON_parse (tc_arguments (hd (the (rm_tool_calls (ch_message (hd (r_choices emptyArgumentsResponse))))))) = None \<and>
   convertToGeminiResponse JSON_parse emptyArgumentsResponse =
     Inr \<lparr>candidates =
            [\<lparr>c_parts = [callPart \<lparr>fc_id = Some ''call_1'', fc_name = Some ''list_files'',
                                    fc_args = Some (JObj [])\<rparr>],
              c_role = ''model'', finishReason = Some ''tool_calls'', c_index = 0\<rparr>],
          functionCalls = Some [\<lparr>fc_id = Some ''call_1'', fc_name = Some ''list_files'',
                                  fc_args = Some (JObj [])\<rparr>],
          usageMetadata = None\<rparr>\<close>
  by (simp add: emptyArgumentsResponse_def convertToGeminiResponse_def functionCallOfToolCall_def
        parseArguments_def orElse_def candidateOf_def truthy_def Let_def JSON_parse_eval)

section \<open>Properties of the stream adapter\<close>

lemma handleLine_frameOf:
  "handleLine parseChunk parse st line =
     (case frameOf parseChunk line of
        None \<Rightarrow> ([], st, False)
      | Some chunk \<Rightarrow> handleChunk parse st chunk)"
  by (simp add: handleLine_def frameOf_def Let_def)

lemma handleChunk_state:
  assumes "sc_choices chunk = Some (choice # rest)"
  shows "fst (snd (handleChunk parse st chunk)) = afterDeltas st choice"
    and "\<exists>zs. fst (handleChunk parse st chunk) = textFragment choice @ zs"
  using assms
  by (auto simp: handleChunk_def afterDeltas_def textFragment_def Let_def truthy_def
      split: option.splits sum.splits)

lemma mapResult_all_Inr':
  assumes "\<forall>x \<in> set xs. f x = Inr (g x)"
  shows "mapResult f xs = Inr (map g xs)"
  using assms by (induction xs) auto

lemma functionCallOfAcc_Inr:
  assumes "parse (orElse (af_arguments (the (at_function tc))) ''{}'') \<noteq> None"
  shows "functionCallOfAcc parse tc =
     Inr \<lparr>fc_id = at_id tc, fc_name = af_name (the (at_function tc)),
          fc_args = parse (orElse (af_arguments (the (at_function tc))) ''{}'')\<rparr>"
  using assms by (auto simp: functionCallOfAcc_def parseArguments_def Let_def)

lemma handleChunk_finish:
  assumes ch: "sc_choices chunk = Some (choice # rest)"
    and fin: "truthy (sc_finish_reason choice)"
    and ok: "\<forall>tc \<in> set (filter completed (map snd (accumulatedToolCalls (afterDeltas st choice)))).
               parse (orElse (af_arguments (the (at_function tc))) ''{}'') \<noteq> None"
  shows "handleChunk parse st chunk =
     (textFragment choice @
      [responseOf
         (if accumulatedToolCalls (afterDeltas st choice) = [] then []
          else (if accumulatedContent (afterDeltas st choice) = [] then []
                else [textPart (accumulatedContent (afterDeltas st choice))]) @
               map (\<lambda>tc. callPart \<lparr>fc_id = at_id tc, fc_name = af_name (the (at_function tc)),
                         fc_args = parse (orElse (af_arguments (the (at_function tc))) ''{}'')\<rparr>)
                 (filter completed (map snd (accumulatedToolCalls (afterDeltas st choice)))))
         (sc_finish_reason choice)
         (if accumulatedToolCalls (afterDeltas st choice) = [] then None
          else Some (map (\<lambda>tc. \<lparr>fc_id = at_id tc, fc_name = af_name (the (at_function tc)),
                         fc_args = parse (orElse (af_arguments (the (at_function tc))) ''{}'')\<rparr>)
                 (filter completed (map snd (accumulatedToolCalls (afterDeltas st choice))))))],
      afterDeltas st choice, True)"
proof -
  let ?st2 = "afterDeltas st choice"
  let ?kept = "filter completed (map snd (accumulatedToolCalls ?st2))"
  let ?g = "\<lambda>tc. \<lparr>fc_id = at_id tc, fc_name = af_name (the (at_function tc)),
                         fc_args = parse (orElse (af_arguments (the (at_function tc))) ''{}'')\<rparr>"
  have "\<forall>tc \<in> set ?kept. functionCallOfAcc parse tc = Inr (?g tc)"
    using ok functionCallOfAcc_Inr by blast
  from mapResult_all_Inr'[OF this]
  have m: "mapResult (functionCallOfAcc parse) ?kept = Inr (map ?g ?kept)" .
  have st2: "?st2 = (let content = d_content (sc_delta choice);
               st1 = (if truthy content
                      then st\<lparr>accumulatedContent := accumulatedContent st @ the content\<rparr>
                      else st)
            in (case d_tool_calls (sc_delta choice) of
                        None \<Rightarrow> st1
                      | Some tool_calls \<Rightarrow>
                          st1\<lparr>accumulatedToolCalls :=
                                foldl mergeToolCallDelta (accumulatedToolCalls st1) tool_calls\<rparr>))"
    by (auto simp: afterDeltas_def Let_def truthy_def split: option.splits)
  have tf: "textFragment choice = (if truthy (d_content (sc_delta choice))
                      then [responseOf [textPart (the (d_content (sc_delta choice)))] (sc_finish_reason choice) None]
                      else [])"
    by (auto simp: textFragment_def truthy_def split: option.splits)
  show ?thesis
    unfolding handleChunk_def ch
    apply (simp only: option.case list.case Let_def)
    apply (fold st2[unfolded Let_def])
    apply (simp only: fin if_True m sum.case)
    apply (simp add: tf comp_def)
    done
qed


lemma handleChunk_not_finishing:
  assumes "\<not> finishing chunk"
  shows "\<exists>ys st'. handleChunk parse st chunk = (ys, st', False) \<and>
     accumulatedToolCalls st' =
       foldl mergeToolCallDelta (accumulatedToolCalls st) (chunkDeltas chunk)"
  using assms
  by (auto simp: handleChunk_def finishing_def chunkDeltas_def Let_def
      split: option.splits list.splits)

lemma handleLines_not_finishing:
  assumes "\<forall>chunk \<in> set (eventsOf parseChunk lines). \<not> finishing chunk"
  shows "\<exists>ys st'. handleLines parseChunk parse st lines = (ys, st', False) \<and>
     accumulatedToolCalls st' =
       foldl mergeToolCallDelta (accumulatedToolCalls st)
         (concat (map chunkDeltas (eventsOf parseChunk lines)))"
  using assms
proof (induction lines arbitrary: st)
  case Nil
  then show ?case by (simp add: eventsOf_def map_filter_simps)
next
  case (Cons l ls)
  show ?case
  proof (cases "frameOf parseChunk l")
    case None
    then have e: "eventsOf parseChunk (l # ls) = eventsOf parseChunk ls"
      by (simp add: eventsOf_def map_filter_simps)
    from Cons.IH[of st] Cons.prems e obtain ys st' where
      "handleLines parseChunk parse st ls = (ys, st', False)"
      "accumulatedToolCalls st' = foldl mergeToolCallDelta (accumulatedToolCalls st)
         (concat (map chunkDeltas (eventsOf parseChunk ls)))" by auto
    then show ?thesis using None e by (simp add: handleLine_frameOf)
  next
    case (Some chunk)
    then have e: "eventsOf parseChunk (l # ls) = chunk # eventsOf parseChunk ls"
      by (simp add: eventsOf_def map_filter_simps)
    with Cons.prems have nf: "\<not> finishing chunk"
      and rest: "\<forall>c \<in> set (eventsOf parseChunk ls). \<not> finishing c" by auto
    from handleChunk_not_finishing[OF nf, of parse st] obtain ys1 st1 where
      h: "handleChunk parse st chunk = (ys1, st1, False)"
      and a1: "accumulatedToolCalls st1 =
         foldl mergeToolCallDelta (accumulatedToolCalls st) (chunkDeltas chunk)" by blast
    from Cons.IH[OF rest, of st1] obtain ys2 st2 where
      h2: "handleLines parseChunk parse st1 ls = (ys2, st2, False)"
      and a2: "accumulatedToolCalls st2 = foldl mergeToolCallDelta (accumulatedToolCalls st1)
         (concat (map chunkDeltas (eventsOf parseChunk ls)))" by blast
    show ?thesis
      using Some h h2 a1 a2 e by (simp add: handleLine_frameOf)
  qed
qed

lemma handleLines_append_finish:
  assumes "handleLines parseChunk parse st pre = (ys, st', False)"
    and "handleLine parseChunk parse st' line = (zs, st'', True)"
  shows "handleLines parseChunk parse st (pre @ line # later) = (ys @ zs, st'', True)"
  using assms
proof (induction pre arbitrary: st ys)
  case Nil
  then show ?case by simp
next
  case (Cons l ls)
  obtain y1 s1 f1 where h: "handleLine parseChunk parse st l = (y1, s1, f1)"
    by (cases "handleLine parseChunk parse st l") auto
  with Cons.prems(1) have nf: "\<not> f1" by (auto split: prod.splits if_splits)
  obtain y2 s2 f2 where h2: "handleLines parseChunk parse s1 ls = (y2, s2, f2)"
    by (cases "handleLines parseChunk parse s1 ls") auto
  with Cons.prems(1) h nf have eq: "ys = y1 @ y2" "st' = s2" "f2 = False" by auto
  from Cons.IH[of s1 y2] h2 eq Cons.prems(2)
  have "handleLines parseChunk parse s1 (ls @ line # later) = (y2 @ zs, st'', True)" by simp
  then show ?case using h nf eq by simp
qed

lemma readLoop_finished:
  assumes "handleLines parseChunk parse st (butlast (splitLines (buffer @ value))) = (ys, st', True)"
  shows "readLoop parseChunk parse st buffer (value # reads) = ys"
  using assms by (simp add: Let_def)


lemma map_of_mergeToolCallDelta:
  "map_of (mergeToolCallDelta m d) =
     (map_of m)(deltaIndex d \<mapsto>
        mergedRecord (case map_of m (deltaIndex d) of None \<Rightarrow> emptyAccToolCall | Some a \<Rightarrow> a) d)"
  by (auto simp: mergeToolCallDelta_def mergedRecord_def deltaIndex_def Let_def update_conv'
      split: option.splits)

lemma keys_mergeToolCallDelta:
  "set (map fst (mergeToolCallDelta m d)) = insert (deltaIndex d) (set (map fst m))"
proof -
  have "dom (map_of (mergeToolCallDelta m d)) = insert (deltaIndex d) (dom (map_of m))"
    by (simp add: map_of_mergeToolCallDelta)
  then show ?thesis by (simp add: dom_map_of_conv_image_fst)
qed

lemma distinct_mergeToolCallDelta:
  "distinct (map fst m) \<Longrightarrow> distinct (map fst (mergeToolCallDelta m d))"
  by (simp add: mergeToolCallDelta_def Let_def distinct_update)

lemma accArguments_merge:
  "accArguments (mergeToolCallDelta m d) i =
     accArguments m i @ (if deltaIndex d = i then deltaArguments d else [])"
  by (auto simp: accArguments_def map_of_mergeToolCallDelta mergedRecord_def mergeFunctionDelta_def
      deltaArguments_def emptyAccToolCall_def emptyAccFunction_def orElse_def truthy_def Let_def
      split: option.splits)

lemma accName_merge:
  "accName (mergeToolCallDelta m d) i =
     accName m i @ (if deltaIndex d = i then deltaName d else [])"
  by (auto simp: accName_def map_of_mergeToolCallDelta mergedRecord_def mergeFunctionDelta_def
      deltaName_def emptyAccToolCall_def emptyAccFunction_def orElse_def truthy_def Let_def
      split: option.splits)

lemma accId_merge:
  "accId (mergeToolCallDelta m d) i =
     (if deltaIndex d = i \<and> truthy (tcd_id d) then the (tcd_id d) else accId m i)"
  by (auto simp: accId_def map_of_mergeToolCallDelta mergedRecord_def
      emptyAccToolCall_def orElse_def truthy_def Let_def
      split: option.splits)

lemma accArguments_foldl:
  "accArguments (foldl mergeToolCallDelta m ds) i =
     accArguments m i @ concat (argumentFragments i ds)"
  by (induction ds arbitrary: m) (simp_all add: argumentFragments_def accArguments_merge)

lemma accName_foldl:
  "accName (foldl mergeToolCallDelta m ds) i = accName m i @ concat (nameFragments i ds)"
  by (induction ds arbitrary: m) (simp_all add: nameFragments_def accName_merge)

lemma accId_foldl:
  "accId (foldl mergeToolCallDelta m ds) i =
     (if idsDelivered i ds = [] then accId m i else last (idsDelivered i ds))"
  by (induction ds arbitrary: m) (auto simp: idsDelivered_def accId_merge)

lemma keys_foldl:
  "set (map fst (foldl mergeToolCallDelta m ds)) = set (map fst m) \<union> deltaIndex ` set ds"
  by (induction ds arbitrary: m) (auto simp: keys_mergeToolCallDelta simp del: set_map)

lemma distinct_foldl:
  "distinct (map fst m) \<Longrightarrow> distinct (map fst (foldl mergeToolCallDelta m ds))"
  by (induction ds arbitrary: m) (simp_all add: distinct_mergeToolCallDelta)

lemma accId_empty: "accId [] j = []"
  and accName_empty: "accName [] j = []"
  and accArguments_empty: "accArguments [] j = []"
  by (simp_all add: accId_def accName_def accArguments_def)

text \<open>A complete record, in terms of what the map holds for its index.\<close>

lemma completed_acc:
  assumes "map_of m j = Some tc"
  shows "completed tc \<longleftrightarrow> accId m j \<noteq> [] \<and> accName m j \<noteq> []"
  using assms
  by (auto simp: completed_def accId_def accName_def truthy_def orElse_def split: option.splits)

lemma arguments_acc:
  assumes "map_of m j = Some tc" and "completed tc"
  shows "orElse (af_arguments (the (at_function tc))) ''{}'' =
           (if accArguments m j = [] then ''{}'' else accArguments m j)"
    and "at_id tc = Some (accId m j)"
    and "af_name (the (at_function tc)) = Some (accName m j)"
  using assms
  by (auto simp: completed_def accArguments_def accId_def accName_def truthy_def orElse_def
      split: option.splits)


lemma splitLines_nonempty [simp]: "splitLines xs \<noteq> []"
  by (induction xs) (auto split: list.splits)

lemma splitLines_no_newline:
  "CHR 0x0A \<notin> set xs \<Longrightarrow> splitLines xs = [xs]"
  by (induction xs) auto

lemma last_splitLines_no_newline: "CHR 0x0A \<notin> set (last (splitLines xs))"
  by (induction xs) (auto split: list.splits)

lemma splitLines_append:
  "splitLines (xs @ ys) = butlast (splitLines xs) @ splitLines (last (splitLines xs) @ ys)"
proof (induction xs)
  case Nil
  then show ?case by simp
next
  case (Cons c cs)
  show ?case
  proof (cases "c = CHR 0x0A")
    case True
    then show ?thesis using Cons by simp
  next
    case False
    obtain l ls where s: "splitLines cs = l # ls"
      by (cases "splitLines cs") auto
    show ?thesis
    proof (cases ls)
      case Nil
      then show ?thesis using False s Cons by simp
    next
      case (Cons a list)
      then show ?thesis using False s Cons.IH by (simp split: list.splits)
    qed
  qed
qed

lemma handleLines_append:
  "handleLines parseChunk parse st (xs @ ys) =
     (case handleLines parseChunk parse st xs of
        (a, st', finished) \<Rightarrow>
          if finished then (a, st', True)
          else (case handleLines parseChunk parse st' ys of
                  (b, st'', finished') \<Rightarrow> (a @ b, st'', finished')))"
proof (induction xs arbitrary: st)
  case Nil
  then show ?case by (simp split: prod.splits)
next
  case (Cons x xs)
  then show ?case by (simp split: prod.splits)
qed

lemma readLoop_lines:
  assumes "CHR 0x0A \<notin> set buffer"
  shows "readLoop parseChunk parse st buffer reads =
     fst (handleLines parseChunk parse st (butlast (splitLines (buffer @ concat reads))))"
  using assms
proof (induction reads arbitrary: st buffer)
  case Nil
  then show ?case by (simp add: splitLines_no_newline)
next
  case (Cons v reads)
  let ?lines = "splitLines (buffer @ v)"
  obtain ys st' fin where h: "handleLines parseChunk parse st (butlast ?lines) = (ys, st', fin)"
    by (cases "handleLines parseChunk parse st (butlast ?lines)") auto
  have sp: "butlast (splitLines (buffer @ concat (v # reads))) =
      butlast ?lines @ butlast (splitLines (last ?lines @ concat reads))"
    using splitLines_append[of "buffer @ v" "concat reads"] by (simp add: butlast_append)
  show ?case
  proof (cases fin)
    case True
    then show ?thesis using h sp by (simp add: handleLines_append Let_def)
  next
    case False
    have "readLoop parseChunk parse st' (last ?lines) reads =
       fst (handleLines parseChunk parse st' (butlast (splitLines (last ?lines @ concat reads))))"
      by (rule Cons.IH) (rule last_splitLines_no_newline)
    then show ?thesis using h sp False
      by (simp add: handleLines_append Let_def split: prod.splits)
  qed
qed

lemma generateContentStream_lines:
  "generateContentStream parseChunk parse \<lparr>http_ok = True, http_error = e, http_body = Some reads\<rparr> =
     Inr (fst (handleLines parseChunk parse initialState (butlast (splitLines (concat reads)))))"
  using readLoop_lines[of "[]" parseChunk parse initialState reads]
  by (simp add: generateContentStream_def)


lemma stream_finish:
  assumes lines: "butlast (splitLines (concat reads)) = pre @ line # later"
    and pre: "handleLines parseChunk parse initialState pre = (ys, st, False)"
    and line: "frameOf parseChunk line = Some chunk"
    and ch: "sc_choices chunk = Some (choice # rest)"
    and fin: "truthy (sc_finish_reason choice)"
    and ok: "\<forall>tc \<in> set (filter completed (map snd (accumulatedToolCalls (afterDeltas st choice)))).
               parse (orElse (af_arguments (the (at_function tc))) ''{}'') \<noteq> None"
  shows "\<exists>final cand.
     generateContentStream parseChunk parse
       \<lparr>http_ok = True, http_error = e, http_body = Some reads\<rparr> =
       Inr (ys @ textFragment choice @ [final]) \<and>
     candidates final = [cand] \<and>
     finishReason cand = sc_finish_reason choice \<and>
     c_parts cand =
       (if accumulatedToolCalls (afterDeltas st choice) = [] then []
        else (if accumulatedContent (afterDeltas st choice) = [] then []
              else [textPart (accumulatedContent (afterDeltas st choice))]) @
             map (\<lambda>tc. callPart \<lparr>fc_id = at_id tc, fc_name = af_name (the (at_function tc)),
                       fc_args = parse (orElse (af_arguments (the (at_function tc))) ''{}'')\<rparr>)
               (filter completed (map snd (accumulatedToolCalls (afterDeltas st choice)))))"
proof -
  let ?st2 = "afterDeltas st choice"
  let ?ps = "(if accumulatedToolCalls ?st2 = [] then []
        else (if accumulatedContent ?st2 = [] then []
              else [textPart (accumulatedContent ?st2)]) @
             map (\<lambda>tc. callPart \<lparr>fc_id = at_id tc, fc_name = af_name (the (at_function tc)),
                       fc_args = parse (orElse (af_arguments (the (at_function tc))) ''{}'')\<rparr>)
               (filter completed (map snd (accumulatedToolCalls ?st2))))"
  let ?fcs = "(if accumulatedToolCalls ?st2 = [] then None
          else Some (map (\<lambda>tc. \<lparr>fc_id = at_id tc, fc_name = af_name (the (at_function tc)),
                         fc_args = parse (orElse (af_arguments (the (at_function tc))) ''{}'')\<rparr>)
                 (filter completed (map snd (accumulatedToolCalls ?st2)))))"
  let ?final = "responseOf ?ps (sc_finish_reason choice) ?fcs"
  have hc: "handleChunk parse st chunk = (textFragment choice @ [?final], ?st2, True)"
    by (rule handleChunk_finish[OF ch fin ok])
  then have hl: "handleLine parseChunk parse st line = (textFragment choice @ [?final], ?st2, True)"
    by (simp add: handleLine_frameOf line)
  have "handleLines parseChunk parse initialState (pre @ line # later) =
      (ys @ textFragment choice @ [?final], ?st2, True)"
    by (rule handleLines_append_finish[OF pre hl])
  then have "generateContentStream parseChunk parse
       \<lparr>http_ok = True, http_error = e, http_body = Some reads\<rparr> =
       Inr (ys @ textFragment choice @ [?final])"
    by (simp add: generateContentStream_lines lines)
  moreover have "candidates ?final = [candidateOf ?ps (sc_finish_reason choice)]"
    by (simp add: responseOf_def)
  ultimately show ?thesis
    by (intro exI[of _ ?final] exI[of _ "candidateOf ?ps (sc_finish_reason choice)"])
       (simp add: candidateOf_def)
qed

text \<open>
  Claim C2, as amended. Let an event arrive in state \<open>st\<close> (after the lines \<open>pre\<close>), with a
  finish reason that is neither null nor the empty string, and let every accumulated
  tool call that has an id and a name have an argument string that is empty or valid
  JSON. Then the generator yields one final response and returns: what it yields ends
  with that response, whatever lines and reads follow. If a tool call was accumulated
  (this event's deltas included), the parts of the final response are the accumulated
  text, when it is not empty, followed by exactly the accumulated tool calls that have an
  id and a name, in the order of the map; otherwise its parts are empty. It carries the
  finish reason.
\<close>
theorem finish_reason_ends_stream:
  assumes lines: "butlast (splitLines (concat reads)) = pre @ line # later"
    and pre: "handleLines parseChunk parse initialState pre = (ys, st, False)"
    and line: "frameOf parseChunk line = Some chunk"
    and ch: "sc_choices chunk = Some (choice # rest)"
    and fin: "truthy (sc_finish_reason choice)"
    and ok: "\<forall>tc \<in> set (filter completed (map snd (accumulatedToolCalls (afterDeltas st choice)))).
               parse (orElse (af_arguments (the (at_function tc))) ''{}'') \<noteq> None"
  shows "\<exists>final cand.
     generateContentStream parseChunk parse
       \<lparr>http_ok = True, http_error = e, http_body = Some reads\<rparr> =
       Inr (ys @ textFragment choice @ [final]) \<and>
     candidates final = [cand] \<and>
     finishReason cand = sc_finish_reason choice \<and>
     c_parts cand =
       (if accumulatedToolCalls (afterDeltas st choice) = [] then []
        else (if accumulatedContent (afterDeltas st choice) = [] then []
              else [textPart (accumulatedContent (afterDeltas st choice))]) @
             map (\<lambda>tc. callPart \<lparr>fc_id = at_id tc, fc_name = af_name (the (at_function tc)),
                       fc_args = parse (orElse (af_arguments (the (at_function tc))) ''{}'')\<rparr>)
               (filter completed (map snd (accumulatedToolCalls (afterDeltas st choice)))))"
  by (rule stream_finish[OF lines pre line ch fin ok])

text \<open>
  Claim C1. Let the stream consist of events that do not finish it, followed by an event
  that does, and let \<open>deltas\<close> be all their tool-call deltas in order. For an index \<open>i\<close> for
  which an id and a name were delivered, if the concatenation of all argument fragments
  delivered for \<open>i\<close> is not empty and parses to \<open>v\<close> (and the argument strings of the other
  indices parse too), then the last response that \<open>generateContentStream\<close> yields contains
  the function call of index \<open>i\<close> with \<open>args = v\<close>: the parse of the in-order concatenation.
\<close>
theorem fragmented_arguments_are_concatenated:
  fixes parseChunk parse reads lines finLine later i e v
  defines "deltas \<equiv> concat (map chunkDeltas (eventsOf parseChunk (lines @ [finLine])))"
  assumes split: "butlast (splitLines (concat reads)) = lines @ finLine # later"
    and pre: "\<forall>chunk \<in> set (eventsOf parseChunk lines). \<not> finishing chunk"
    and fin: "\<exists>chunk. frameOf parseChunk finLine = Some chunk \<and> finishing chunk"
    and ids: "idsDelivered i deltas \<noteq> []"
    and name: "concat (nameFragments i deltas) \<noteq> []"
    and args: "concat (argumentFragments i deltas) \<noteq> []"
    and v: "parse (concat (argumentFragments i deltas)) = Some v"
    and others: "\<forall>d \<in> set deltas.
        parse (if concat (argumentFragments (deltaIndex d) deltas) = [] then ''{}''
               else concat (argumentFragments (deltaIndex d) deltas)) \<noteq> None"
  shows "\<exists>ys final cand.
     generateContentStream parseChunk parse
       \<lparr>http_ok = True, http_error = e, http_body = Some reads\<rparr> = Inr (ys @ [final]) \<and>
     candidates final = [cand] \<and>
     callPart \<lparr>fc_id = Some (last (idsDelivered i deltas)),
               fc_name = Some (concat (nameFragments i deltas)),
               fc_args = Some v\<rparr> \<in> set (c_parts cand)"
proof -
  from fin obtain chunk where fr: "frameOf parseChunk finLine = Some chunk" and f: "finishing chunk"
    by blast
  from f obtain choice rest where ch: "sc_choices chunk = Some (choice # rest)"
    and tr: "truthy (sc_finish_reason choice)"
    by (auto simp: finishing_def split: option.splits list.splits)
  from handleLines_not_finishing[OF pre, of parse initialState]
  obtain ys st where h: "handleLines parseChunk parse initialState lines = (ys, st, False)"
    and acc: "accumulatedToolCalls st =
       foldl mergeToolCallDelta [] (concat (map chunkDeltas (eventsOf parseChunk lines)))"
    by (auto simp: initialState_def)
  define m where "m = accumulatedToolCalls (afterDeltas st choice)"
  have ev: "eventsOf parseChunk (lines @ [finLine]) = eventsOf parseChunk lines @ [chunk]"
    by (simp add: eventsOf_def map_filter_def fr)
  have cd: "chunkDeltas chunk = (case d_tool_calls (sc_delta choice) of None \<Rightarrow> [] | Some ds \<Rightarrow> ds)"
    by (simp add: chunkDeltas_def ch)
  have m: "m = foldl mergeToolCallDelta [] deltas"
    by (simp add: m_def afterDeltas_def acc deltas_def ev cd split: option.splits)
  have dist: "distinct (map fst m)"
    unfolding m by (rule distinct_foldl) simp
  have keys: "set (map fst m) = deltaIndex ` set deltas"
    unfolding m by (simp add: keys_foldl del: set_map)
  have aid: "accId m j = (if idsDelivered j deltas = [] then [] else last (idsDelivered j deltas))" for j
    unfolding m by (simp add: accId_foldl accId_empty)
  have aname: "accName m j = concat (nameFragments j deltas)" for j
    unfolding m by (simp add: accName_foldl accName_empty)
  have aargs: "accArguments m j = concat (argumentFragments j deltas)" for j
    unfolding m by (simp add: accArguments_foldl accArguments_empty)
  have ok: "\<forall>tc \<in> set (filter completed (map snd m)).
               parse (orElse (af_arguments (the (at_function tc))) ''{}'') \<noteq> None"
  proof
    fix tc assume "tc \<in> set (filter completed (map snd m))"
    then have c: "completed tc" and "tc \<in> snd ` set m" by auto
    then obtain j where j: "(j, tc) \<in> set m" by force
    with dist have mj: "map_of m j = Some tc" by simp
    from j have "j \<in> set (map fst m)" by force
    with keys obtain d where "d \<in> set deltas" "deltaIndex d = j" by auto
    with others have "parse (if concat (argumentFragments j deltas) = [] then ''{}''
               else concat (argumentFragments j deltas)) \<noteq> None" by blast
    then show "parse (orElse (af_arguments (the (at_function tc))) ''{}'') \<noteq> None"
      using arguments_acc(1)[OF mj c] by (simp only: aargs not_False_eq_True)
  qed
  from ids obtain d where d: "d \<in> set deltas" "deltaIndex d = i"
    by (auto simp: idsDelivered_def filter_empty_conv)
  then have "i \<in> set (map fst m)" using keys by auto
  then obtain tc where tc: "map_of m i = Some tc"
    by (metis map_of_eq_None_iff not_Some_eq set_map)
  have lastne: "last (idsDelivered i deltas) \<noteq> []"
  proof -
    have "last (idsDelivered i deltas) \<in> set (idsDelivered i deltas)" using ids by simp
    then show ?thesis by (auto simp: idsDelivered_def truthy_def split: option.splits)
  qed
  have comp: "completed tc"
    using completed_acc[OF tc] ids name lastne by (simp add: aid aname)
  have tcin: "tc \<in> set (filter completed (map snd m))"
    using comp map_of_SomeD[OF tc] by force
  have g: "\<lparr>fc_id = at_id tc, fc_name = af_name (the (at_function tc)),
                       fc_args = parse (orElse (af_arguments (the (at_function tc))) ''{}'')\<rparr> =
       \<lparr>fc_id = Some (last (idsDelivered i deltas)),
               fc_name = Some (concat (nameFragments i deltas)),
               fc_args = Some v\<rparr>"
    using arguments_acc[OF tc comp] ids args v by (auto simp: aid aname aargs)
  have mne: "m \<noteq> []" using tc by auto
  have ok': "\<forall>tc \<in> set (filter completed (map snd (accumulatedToolCalls (afterDeltas st choice)))).
               parse (orElse (af_arguments (the (at_function tc))) ''{}'') \<noteq> None"
    using ok by (simp add: m_def)
  from stream_finish[OF split h fr ch tr ok', of e]
  obtain final cand where
    gen: "generateContentStream parseChunk parse
       \<lparr>http_ok = True, http_error = e, http_body = Some reads\<rparr> =
       Inr (ys @ textFragment choice @ [final])"
    and cand: "candidates final = [cand]"
    and ps: "c_parts cand =
       (if m = [] then []
        else (if accumulatedContent (afterDeltas st choice) = [] then []
              else [textPart (accumulatedContent (afterDeltas st choice))]) @
             map (\<lambda>tc. callPart \<lparr>fc_id = at_id tc, fc_name = af_name (the (at_function tc)),
                       fc_args = parse (orElse (af_arguments (the (at_function tc))) ''{}'')\<rparr>)
               (filter completed (map snd m)))"
    unfolding m_def by blast
  have "callPart \<lparr>fc_id = at_id tc, fc_name = af_name (the (at_function tc)),
                       fc_args = parse (orElse (af_arguments (the (at_function tc))) ''{}'')\<rparr>
        \<in> set (c_parts cand)"
    using ps mne tcin by auto
  then have "callPart \<lparr>fc_id = Some (last (idsDelivered i deltas)),
               fc_name = Some (concat (nameFragments i deltas)),
               fc_args = Some v\<rparr> \<in> set (c_parts cand)"
    by (simp only: g)
  with gen cand show ?thesis
    by (intro exI[of _ "ys @ textFragment choice"] exI[of _ final] exI[of _ cand]) simp
qed

subsection \<open>The evaluated streams\<close>

lemma eventsOf_snoc:
  "frameOf parseChunk l = Some chunk \<Longrightarrow>
   eventsOf parseChunk (ls @ [l]) = eventsOf parseChunk ls @ [chunk]"
  by (simp add: eventsOf_def map_filter_def)

lemma weather_lines:
  "butlast (splitLines (concat weatherReads)) =
     take 5 (butlast (splitLines (concat weatherReads))) @
     (butlast (splitLines (concat weatherReads)) ! 5) #
     drop 6 (butlast (splitLines (concat weatherReads)))"
  by code_simp

lemma weather_events:
  \<open>eventsOf parseStreamChunk (take 5 (butlast (splitLines (concat weatherReads)))) =
     [\<lparr>sc_choices = Some [\<lparr>sc_delta = \<lparr>d_content = Some ''Checking. '', d_tool_calls = None\<rparr>,
                           sc_finish_reason = None\<rparr>]\<rparr>,
      \<lparr>sc_choices = Some [\<lparr>sc_delta = \<lparr>d_content = None, d_tool_calls =
               Some [\<lparr>tcd_index = Some 0, tcd_id = Some ''call_1'', tcd_type = Some ''function'',
                      tcd_function = Some \<lparr>fd_name = Some ''get_weather'',
                                            fd_arguments = Some ''{"ci''\<rparr>\<rparr>]\<rparr>,
                           sc_finish_reason = None\<rparr>]\<rparr>,
      \<lparr>sc_choices = Some [\<lparr>sc_delta = \<lparr>d_content = None, d_tool_calls =
               Some [\<lparr>tcd_index = Some 0, tcd_id = None, tcd_type = None,
                      tcd_function = Some \<lparr>fd_name = None, fd_arguments = Some ''ty":"''\<rparr>\<rparr>]\<rparr>,
                           sc_finish_reason = None\<rparr>]\<rparr>,
      \<lparr>sc_choices = Some [\<lparr>sc_delta = \<lparr>d_content = None, d_tool_calls =
               Some [\<lparr>tcd_index = Some 0, tcd_id = None, tcd_type = None,
                      tcd_function = Some \<lparr>fd_name = None, fd_arguments = Some ''Paris"}''\<rparr>\<rparr>]\<rparr>,
                           sc_finish_reason = None\<rparr>]\<rparr>]\<close>
  by code_simp

lemma weather_finish:
  \<open>frameOf parseStreamChunk (butlast (splitLines (concat weatherReads)) ! 5) =
     Some \<lparr>sc_choices = Some [\<lparr>sc_delta = \<lparr>d_content = None, d_tool_calls = None\<rparr>,
                                sc_finish_reason = Some ''tool_calls''\<rparr>]\<rparr>\<close>
  by code_simp

text \<open>
  Witness for C1: the argument string arrives as \<open>{"ci\<close>, \<open>ty":"\<close> and \<open>Paris"}\<close>, and the
  final response carries the function call with the object \<open>{"city": "Paris"}\<close>.
\<close>
theorem fragmented_arguments_are_concatenated_witness:
  \<open>\<exists>ys final cand.
     generateContentStream parseStreamChunk JSON_parse
       \<lparr>http_ok = True, http_error = [], http_body = Some weatherReads\<rparr> = Inr (ys @ [final]) \<and>
     candidates final = [cand] \<and>
     callPart \<lparr>fc_id = Some ''call_1'', fc_name = Some ''get_weather'',
               fc_args = Some (JObj [(''city'', JStr ''Paris'')])\<rparr> \<in> set (c_parts cand)\<close>
proof -
  let ?L = "butlast (splitLines (concat weatherReads))"
  let ?ds = "concat (map chunkDeltas (eventsOf parseStreamChunk (take 5 ?L @ [?L ! 5])))"
  have ds: \<open>?ds =
      [\<lparr>tcd_index = Some 0, tcd_id = Some ''call_1'', tcd_type = Some ''function'',
        tcd_function = Some \<lparr>fd_name = Some ''get_weather'', fd_arguments = Some ''{"ci''\<rparr>\<rparr>,
       \<lparr>tcd_index = Some 0, tcd_id = None, tcd_type = None,
        tcd_function = Some \<lparr>fd_name = None, fd_arguments = Some ''ty":"''\<rparr>\<rparr>,
       \<lparr>tcd_index = Some 0, tcd_id = None, tcd_type = None,
        tcd_function = Some \<lparr>fd_name = None, fd_arguments = Some ''Paris"}''\<rparr>\<rparr>]\<close>
    by (simp add: eventsOf_snoc[OF weather_finish] weather_events chunkDeltas_def)
  have pre: "\<forall>chunk \<in> set (eventsOf parseStreamChunk (take 5 ?L)). \<not> finishing chunk"
    by (simp add: weather_events finishing_def truthy_def)
  have fin: "\<exists>chunk. frameOf parseStreamChunk (?L ! 5) = Some chunk \<and> finishing chunk"
    by (simp add: weather_finish finishing_def truthy_def)
  have ids: "idsDelivered 0 ?ds \<noteq> []"
    by (simp add: ds idsDelivered_def deltaIndex_def truthy_def)
  have name: "concat (nameFragments 0 ?ds) \<noteq> []"
    by (simp add: ds nameFragments_def deltaIndex_def deltaName_def)
  have args: "concat (argumentFragments 0 ?ds) \<noteq> []"
    by (simp add: ds argumentFragments_def deltaIndex_def deltaArguments_def)
  have v: "JSON_parse (concat (argumentFragments 0 ?ds)) = Some (JObj [(''city'', JStr ''Paris'')])"
    by (simp add: ds argumentFragments_def deltaIndex_def deltaArguments_def JSON_parse_eval)
  have others: "\<forall>d \<in> set ?ds.
        JSON_parse (if concat (argumentFragments (deltaIndex d) ?ds) = [] then ''{}''
               else concat (argumentFragments (deltaIndex d) ?ds)) \<noteq> None"
    by (simp add: ds argumentFragments_def deltaIndex_def deltaArguments_def JSON_parse_eval)
  from fragmented_arguments_are_concatenated[OF weather_lines pre fin ids name args v others, of "[]"]
  show ?thesis
    by (simp add: ds idsDelivered_def nameFragments_def deltaIndex_def deltaName_def truthy_def)
qed


lemma hello_lines:
  "butlast (splitLines (concat helloReads)) =
     take 2 (butlast (splitLines (concat helloReads))) @
     (butlast (splitLines (concat helloReads)) ! 2) #
     drop 3 (butlast (splitLines (concat helloReads)))"
  by code_simp

lemma hello_pre:
  "handleLines parseStreamChunk JSON_parse initialState
     (take 2 (butlast (splitLines (concat helloReads)))) =
   ([responseOf [textPart ''Hel''] None None, responseOf [textPart ''lo''] None None],
    \<lparr>accumulatedToolCalls = [], accumulatedContent = ''Hello''\<rparr>, False)"
  by code_simp

lemma hello_finish:
  \<open>frameOf parseStreamChunk (butlast (splitLines (concat helloReads)) ! 2) =
     Some \<lparr>sc_choices = Some [\<lparr>sc_delta = \<lparr>d_content = None, d_tool_calls = None\<rparr>,
                                sc_finish_reason = Some ''stop''\<rparr>]\<rparr>\<close>
  by code_simp

lemma three_lines:
  "butlast (splitLines (concat threeCallsReads)) =
     take 2 (butlast (splitLines (concat threeCallsReads))) @
     (butlast (splitLines (concat threeCallsReads)) ! 2) #
     drop 3 (butlast (splitLines (concat threeCallsReads)))"
  by code_simp

lemma three_pre:
  "handleLines parseStreamChunk JSON_parse initialState
     (take 2 (butlast (splitLines (concat threeCallsReads)))) =
   ([responseOf [textPart ''Plan. ''] None None],
    \<lparr>accumulatedToolCalls =
       [(0, \<lparr>at_id = Some ''call_a'', at_type = None,
             at_function = Some \<lparr>af_name = Some ''alpha'', af_arguments = Some ''{}''\<rparr>\<rparr>),
        (1, \<lparr>at_id = Some ''call_b'', at_type = None,
             at_function = Some \<lparr>af_name = None, af_arguments = Some ''[1]''\<rparr>\<rparr>)],
     accumulatedContent = ''Plan. ''\<rparr>, False)"
  by code_simp

lemma three_finish:
  \<open>frameOf parseStreamChunk (butlast (splitLines (concat threeCallsReads)) ! 2) =
     Some \<lparr>sc_choices = Some [\<lparr>sc_delta = \<lparr>d_content = None, d_tool_calls =
               Some [\<lparr>tcd_index = Some 2, tcd_id = Some ''call_c'', tcd_type = None,
                      tcd_function = Some \<lparr>fd_name = Some ''gamma'', fd_arguments = None\<rparr>\<rparr>]\<rparr>,
                                sc_finish_reason = Some ''tool_calls''\<rparr>]\<rparr>\<close>
  by code_simp

lemma three_after:
  "afterDeltas
     \<lparr>accumulatedToolCalls =
       [(0, \<lparr>at_id = Some ''call_a'', at_type = None,
             at_function = Some \<lparr>af_name = Some ''alpha'', af_arguments = Some ''{}''\<rparr>\<rparr>),
        (1, \<lparr>at_id = Some ''call_b'', at_type = None,
             at_function = Some \<lparr>af_name = None, af_arguments = Some ''[1]''\<rparr>\<rparr>)],
      accumulatedContent = ''Plan. ''\<rparr>
     \<lparr>sc_delta = \<lparr>d_content = None, d_tool_calls =
               Some [\<lparr>tcd_index = Some 2, tcd_id = Some ''call_c'', tcd_type = None,
                      tcd_function = Some \<lparr>fd_name = Some ''gamma'', fd_arguments = None\<rparr>\<rparr>]\<rparr>,
      sc_finish_reason = Some ''tool_calls''\<rparr> =
   \<lparr>accumulatedToolCalls =
       [(0, \<lparr>at_id = Some ''call_a'', at_type = None,
             at_function = Some \<lparr>af_name = Some ''alpha'', af_arguments = Some ''{}''\<rparr>\<rparr>),
        (1, \<lparr>at_id = Some ''call_b'', at_type = None,
             at_function = Some \<lparr>af_name = None, af_arguments = Some ''[1]''\<rparr>\<rparr>),
        (2, \<lparr>at_id = Some ''call_c'', at_type = None,
             at_function = Some \<lparr>af_name = Some ''gamma'', af_arguments = None\<rparr>\<rparr>)],
      accumulatedContent = ''Plan. ''\<rparr>"
  by code_simp

text \<open>
  Witness for C2: a text stream that ends with \<open>stop\<close>, and a stream with three tool
  calls of which the one without a name is dropped. In both the text delta that follows
  the finishing event is never read.
\<close>
theorem finish_reason_ends_stream_witness:
  "(\<exists>final cand.
      generateContentStream parseStreamChunk JSON_parse
        \<lparr>http_ok = True, http_error = [], http_body = Some helloReads\<rparr> =
        Inr ([responseOf [textPart ''Hel''] None None, responseOf [textPart ''lo''] None None]
             @ [final]) \<and>
      candidates final = [cand] \<and> finishReason cand = Some ''stop'' \<and> c_parts cand = []) \<and>
   (\<exists>final cand.
      generateContentStream parseStreamChunk JSON_parse
        \<lparr>http_ok = True, http_error = [], http_body = Some threeCallsReads\<rparr> =
        Inr ([responseOf [textPart ''Plan. ''] None None] @ [final]) \<and>
      candidates final = [cand] \<and> finishReason cand = Some ''tool_calls'' \<and>
      c_parts cand =
        [textPart ''Plan. '',
         callPart \<lparr>fc_id = Some ''call_a'', fc_name = Some ''alpha'', fc_args = Some (JObj [])\<rparr>,
         callPart \<lparr>fc_id = Some ''call_c'', fc_name = Some ''gamma'', fc_args = Some (JObj [])\<rparr>])"
proof -
  let ?c1 = "\<lparr>sc_delta = \<lparr>d_content = None, d_tool_calls = None\<rparr>,
              sc_finish_reason = Some ''stop''\<rparr>"
  have ch1: "sc_choices \<lparr>sc_choices = Some [?c1]\<rparr> = Some (?c1 # [])" by simp
  have f1: "truthy (sc_finish_reason ?c1)" by (simp add: truthy_def)
  have ok1: "\<forall>tc \<in> set (filter completed (map snd (accumulatedToolCalls
        (afterDeltas \<lparr>accumulatedToolCalls = [], accumulatedContent = ''Hello''\<rparr> ?c1)))).
               JSON_parse (orElse (af_arguments (the (at_function tc))) ''{}'') \<noteq> None"
    by (simp add: afterDeltas_def)
  from finish_reason_ends_stream[OF hello_lines hello_pre hello_finish ch1 f1 ok1, of "[]"]
  have A: "\<exists>final cand.
      generateContentStream parseStreamChunk JSON_parse
        \<lparr>http_ok = True, http_error = [], http_body = Some helloReads\<rparr> =
        Inr ([responseOf [textPart ''Hel''] None None, responseOf [textPart ''lo''] None None]
             @ [final]) \<and>
      candidates final = [cand] \<and> finishReason cand = Some ''stop'' \<and> c_parts cand = []"
    by (simp add: afterDeltas_def textFragment_def)
  let ?c2 = "\<lparr>sc_delta = \<lparr>d_content = None, d_tool_calls =
               Some [\<lparr>tcd_index = Some 2, tcd_id = Some ''call_c'', tcd_type = None,
                      tcd_function = Some \<lparr>fd_name = Some ''gamma'', fd_arguments = None\<rparr>\<rparr>]\<rparr>,
      sc_finish_reason = Some ''tool_calls''\<rparr>"
  let ?st = "\<lparr>accumulatedToolCalls =
       [(0, \<lparr>at_id = Some ''call_a'', at_type = None,
             at_function = Some \<lparr>af_name = Some ''alpha'', af_arguments = Some ''{}''\<rparr>\<rparr>),
        (1, \<lparr>at_id = Some ''call_b'', at_type = None,
             at_function = Some \<lparr>af_name = None, af_arguments = Some ''[1]''\<rparr>\<rparr>)],
     accumulatedContent = ''Plan. ''\<rparr>"
  have empty_object: "JSON_parse ''{}'' = Some (JObj [])"
    by (simp add: JSON_parse_eval)
  have ch2: "sc_choices \<lparr>sc_choices = Some [?c2]\<rparr> = Some (?c2 # [])" by simp
  have f2: "truthy (sc_finish_reason ?c2)" by (simp add: truthy_def)
  have ok2: "\<forall>tc \<in> set (filter completed (map snd (accumulatedToolCalls (afterDeltas ?st ?c2)))).
               JSON_parse (orElse (af_arguments (the (at_function tc))) ''{}'') \<noteq> None"
    by (simp add: three_after completed_def truthy_def orElse_def empty_object)
  from finish_reason_ends_stream[OF three_lines three_pre three_finish ch2 f2 ok2, of "[]"]
  have B: "\<exists>final cand.
      generateContentStream parseStreamChunk JSON_parse
        \<lparr>http_ok = True, http_error = [], http_body = Some threeCallsReads\<rparr> =
        Inr ([responseOf [textPart ''Plan. ''] None None] @ [final]) \<and>
      candidates final = [cand] \<and> finishReason cand = Some ''tool_calls'' \<and>
      c_parts cand =
        [textPart ''Plan. '',
         callPart \<lparr>fc_id = Some ''call_a'', fc_name = Some ''alpha'', fc_args = Some (JObj [])\<rparr>,
         callPart \<lparr>fc_id = Some ''call_c'', fc_name = Some ''gamma'', fc_args = Some (JObj [])\<rparr>]"
    by (simp add: three_after textFragment_def completed_def truthy_def orElse_def empty_object)
  from A B show ?thesis by blast
qed

text \<open>
  Counterexample to C2 as stated. A finish reason that is the empty string is not null,
  and the generator neither yields a final response nor returns: it goes on to yield the
  text delta of the next line. The same happens when a finish reason arrives while an
  accumulated tool call has an argument string that does not parse.
\<close>
theorem finish_reason_counterexample:
  \<open>map (frameOf parseStreamChunk) (butlast (splitLines (concat emptyReasonReads))) =
     [Some \<lparr>sc_choices = Some [\<lparr>sc_delta = \<lparr>d_content = None, d_tool_calls = None\<rparr>,
                                 sc_finish_reason = Some []\<rparr>]\<rparr>,
      Some \<lparr>sc_choices = Some [\<lparr>sc_delta = \<lparr>d_content = Some ''late'', d_tool_calls = None\<rparr>,
                                 sc_finish_reason = None\<rparr>]\<rparr>] \<and>
   generateContentStream parseStreamChunk JSON_parse (okResponse emptyReasonReads) =
     Inr [responseOf [textPart ''late''] None None] \<and>
   map (frameOf parseStreamChunk) (butlast (splitLines (concat brokenArgumentsReads))) =
     [Some \<lparr>sc_choices = Some [\<lparr>sc_delta = \<lparr>d_content = None, d_tool_calls =
               Some [\<lparr>tcd_index = Some 0, tcd_id = Some ''call_1'', tcd_type = None,
                      tcd_function = Some \<lparr>fd_name = Some ''get_weather'',
                                            fd_arguments = Some ''{''\<rparr>\<rparr>]\<rparr>,
                                 sc_finish_reason = Some ''tool_calls''\<rparr>]\<rparr>,
      Some \<lparr>sc_choices = Some [\<lparr>sc_delta = \<lparr>d_content = Some ''late'', d_tool_calls = None\<rparr>,
                                 sc_finish_reason = None\<rparr>]\<rparr>] \<and>
   generateContentStream parseStreamChunk JSON_parse (okResponse brokenArgumentsReads) =
     Inr [responseOf [textPart ''late''] None None]\<close>
  by code_simp
section \<open>Properties of the validation of the auth method\<close>

text \<open>
  The enum declares no member \<open>CLOUD_SHELL\<close>, \<open>LOGIN_WITH_GOOGLE\<close> or \<open>AZURE_OPENAI\<close>, so the tests
  against them compare the auth method with \<open>undefined\<close>. The first of them returns \<open>null\<close>
  for \<open>undefined\<close>, whatever the environment; a string passes all three, and only the
  branches of \<open>USE_GEMINI\<close> and \<open>USE_VERTEX_AI\<close> can be taken.
\<close>

lemma AuthType_undeclared:
  "AuthType ''CLOUD_SHELL'' = None"
  "AuthType ''LOGIN_WITH_GOOGLE'' = None"
  "AuthType ''AZURE_OPENAI'' = None"
  by (simp_all add: AuthType_def)

lemma AuthType_declared:
  "AuthType ''USE_GEMINI'' = Some ''gemini-api-key''"
  "AuthType ''USE_VERTEX_AI'' = Some ''vertex-ai''"
  "AuthType ''USE_AZURE_OPENAI'' = Some ''azure-openai''"
  by (simp_all add: AuthType_def)

lemma validateAuthMethod_undefined:
  "validateAuthMethod loadEnvironment env None = None"
  by (simp add: validateAuthMethod_def AuthType_undeclared Let_def)

lemma validateAuthMethod_other_string:
  assumes "s \<noteq> ''gemini-api-key''" and "s \<noteq> ''vertex-ai''"
  shows "validateAuthMethod loadEnvironment env (Some s) =
           Some \<lparr>message = ''Invalid auth method selected.'', missing = []\<rparr>"
  using assms by (simp add: validateAuthMethod_def AuthType_undeclared AuthType_declared Let_def)

text \<open>
  Claim C8, at the failing inputs. The member of the enum for Azure OpenAI is
  \<open>USE_AZURE_OPENAI\<close>, the string \<open>azure-openai\<close>: with every variable set
  \<open>validateAuthMethod\<close> does not return \<open>null\<close> but the message for an invalid auth method,
  with nothing listed as missing. The name that \<open>validateAuthMethod\<close> and the dialog write,
  \<open>AuthType.AZURE_OPENAI\<close>, is \<open>undefined\<close>: with no variable set \<open>validateAuthMethod\<close> returns
  \<open>null\<close> and blocks nothing.
\<close>

theorem validateAuthMethod_azure_branch_unreachable:
  "AuthType ''USE_AZURE_OPENAI'' = Some ''azure-openai'' \<and>
   validateAuthMethod noEnvFile azureEnv (AuthType ''USE_AZURE_OPENAI'') =
     Some \<lparr>message = ''Invalid auth method selected.'', missing = []\<rparr> \<and>
   AuthType ''AZURE_OPENAI'' = None \<and>
   validateAuthMethod noEnvFile emptyEnv (AuthType ''AZURE_OPENAI'') = None"
  by (simp add: AuthType_declared AuthType_undeclared validateAuthMethod_undefined
        validateAuthMethod_other_string)


section \<open>Properties of the tool conversion\<close>

lemma of_char_lt_256: "(of_char c :: nat) < 256"
  by (simp add: of_char_def)

lemma not_upper_toLowerChar: "\<not> isUpperChar (toLowerChar c)"
proof (cases "isUpperChar c")
  case False
  then show ?thesis by (simp add: toLowerChar_def)
next
  case True
  then have r: "(65 \<le> (of_char c :: nat) \<and> (of_char c :: nat) \<le> 90) \<or>
     (192 \<le> (of_char c :: nat) \<and> (of_char c :: nat) \<le> 214) \<or>
     (216 \<le> (of_char c :: nat) \<and> (of_char c :: nat) \<le> 222)"
    by (simp add: isUpperChar_def Let_def)
  then have "(of_char c :: nat) + 32 < 256" by arith
  then have "(of_char (char_of ((of_char c :: nat) + 32)) :: nat) = of_char c + 32"
    by simp
  then show ?thesis using r True by (simp add: toLowerChar_def isUpperChar_def Let_def) arith
qed

lemma isLowerCase_toLowerCase: "isLowerCase (toLowerCase s)"
  by (induction s) (simp_all add: isLowerCase_def toLowerCase_def not_upper_toLowerChar)

lemma map_of_lowerType:
  "map_of (lowerType schema) k =
     (if k = ''type'' then
        (case map_of schema ''type'' of
           Some (JStr t) \<Rightarrow> Some (JStr (toLowerCase t))
         | x \<Rightarrow> x)
      else map_of schema k)"
  by (auto simp: lowerType_def update_conv' split: option.splits json.splits)

lemma map_of_forProperties:
  "map_of (forProperties f schema0 schema) k =
     (if k = ''properties'' then
        (case map_of schema0 ''properties'' of
           Some (JObj props) \<Rightarrow> Some (JObj (map (\<lambda>kv. (fst kv, f (snd kv))) props))
         | Some (JArr xs) \<Rightarrow> Some (JArr (map f xs))
         | _ \<Rightarrow> map_of schema ''properties'')
      else map_of schema k)"
  by (auto simp: forProperties_def update_conv' split: option.splits json.splits)

lemma map_of_forItems:
  "map_of (forItems f schema0 schema) k =
     (if k = ''items'' then
        (case map_of schema0 ''items'' of
           Some v \<Rightarrow> Some (f v)
         | None \<Rightarrow> map_of schema ''items'')
      else map_of schema k)"
  by (auto simp: forItems_def update_conv' split: option.splits)

lemma map_of_forEachOf:
  "map_of (forEachOf key f schema0 schema) k =
     (if k = key then
        (case map_of schema0 key of
           Some (JArr xs) \<Rightarrow> Some (JArr (map f xs))
         | _ \<Rightarrow> map_of schema key)
      else map_of schema k)"
  by (auto simp: forEachOf_def update_conv' split: option.splits json.splits)

lemmas map_of_steps = map_of_lowerType map_of_forProperties map_of_forItems map_of_forEachOf

lemma typesLowerCase_convert: "typesLowerCase (convertSchemaTypeToLowerCase j)"
proof (induction j rule: convertSchemaTypeToLowerCase.induct)
  case (1 schema)
  let ?f = convertSchemaTypeToLowerCase
  let ?s = "forEachOf ''oneOf'' ?f schema
          (forEachOf ''allOf'' ?f schema
          (forEachOf ''anyOf'' ?f schema
          (forItems ?f schema
          (forProperties ?f schema
          (lowerType schema)))))"
  have t: "case map_of ?s ''type'' of Some (JStr t) \<Rightarrow> isLowerCase t | _ \<Rightarrow> True"
    by (simp add: map_of_steps isLowerCase_toLowerCase split: option.splits json.splits)
  have p: "case map_of ?s ''properties'' of
         Some (JObj props) \<Rightarrow> list_all (\<lambda>kv. typesLowerCase (snd kv)) props
       | _ \<Rightarrow> True"
  proof (cases "map_of schema ''properties''")
    case None
    then show ?thesis by (simp add: map_of_steps)
  next
    case (Some v)
    show ?thesis
    proof (cases v)
      case (JObj props)
      with Some "1.IH"(1) show ?thesis
        by (simp add: map_of_steps list_all_iff)
    qed (use Some in \<open>simp_all add: map_of_steps\<close>)
  qed
  have i: "case map_of ?s ''items'' of Some v \<Rightarrow> typesLowerCase v | None \<Rightarrow> True"
    using "1.IH"(3) by (simp add: map_of_steps split: option.splits)
  have anyOf: "case map_of ?s ''anyOf'' of Some (JArr xs) \<Rightarrow> list_all typesLowerCase xs | _ \<Rightarrow> True"
  proof (cases "map_of schema ''anyOf''")
    case None
    then show ?thesis by (simp add: map_of_steps)
  next
    case (Some v)
    show ?thesis
    proof (cases v)
      case (JArr xs)
      with Some "1.IH"(4) show ?thesis
        by (simp add: map_of_steps list_all_iff)
    qed (use Some in \<open>simp_all add: map_of_steps\<close>)
  qed
  have allOf: "case map_of ?s ''allOf'' of Some (JArr xs) \<Rightarrow> list_all typesLowerCase xs | _ \<Rightarrow> True"
  proof (cases "map_of schema ''allOf''")
    case None
    then show ?thesis by (simp add: map_of_steps)
  next
    case (Some v)
    show ?thesis
    proof (cases v)
      case (JArr xs)
      with Some "1.IH"(5) show ?thesis
        by (simp add: map_of_steps list_all_iff)
    qed (use Some in \<open>simp_all add: map_of_steps\<close>)
  qed
  have oneOf: "case map_of ?s ''oneOf'' of Some (JArr xs) \<Rightarrow> list_all typesLowerCase xs | _ \<Rightarrow> True"
  proof (cases "map_of schema ''oneOf''")
    case None
    then show ?thesis by (simp add: map_of_steps)
  next
    case (Some v)
    show ?thesis
    proof (cases v)
      case (JArr xs)
      with Some "1.IH"(6) show ?thesis
        by (simp add: map_of_steps list_all_iff)
    qed (use Some in \<open>simp_all add: map_of_steps\<close>)
  qed
  show ?case
    using t p i anyOf allOf oneOf by simp
qed simp_all


lemma serializable_append:
  "serializable stringify parse \<sigma> d \<Longrightarrow> serializable stringify parse (\<sigma> @ xs) d"
  by (auto simp: serializable_def nth_append split: option.splits)

lemma convertDeclaration_serializable:
  assumes "serializable stringify parse \<sigma> d"
  shows "\<exists>tool copy. convertDeclaration stringify parse \<sigma> d =
            Inr (tool, \<sigma> @ [convertSchemaTypeToLowerCase copy]) \<and>
          tool_parameters tool = length \<sigma> \<and>
          tool_type tool = ''function'' \<and>
          tool_name tool = orElse (decl_name d) ''unknown_function'' \<and>
          tool_description tool = orElse (decl_description d) []"
  using assms
  by (auto simp: serializable_def convertDeclaration_def convertSchemaTypeToLowerCaseAt_def Let_def
      split: option.splits)

lemma convertDeclarations_serializable:
  assumes "\<forall>d \<in> set ds. serializable stringify parse \<sigma> d"
  shows "\<exists>tools news. convertDeclarations stringify parse \<sigma> ds = Inr (tools, \<sigma> @ news) \<and>
           length tools = length ds \<and> length news = length ds \<and>
           (\<forall>i < length ds.
              tool_parameters (tools ! i) = length \<sigma> + i \<and>
              tool_type (tools ! i) = ''function'' \<and>
              tool_name (tools ! i) = orElse (decl_name (ds ! i)) ''unknown_function'' \<and>
              tool_description (tools ! i) = orElse (decl_description (ds ! i)) [] \<and>
              typesLowerCase (news ! i))"
  using assms
proof (induction ds arbitrary: \<sigma>)
  case Nil
  then show ?case by simp
next
  case (Cons d ds)
  from Cons.prems have "serializable stringify parse \<sigma> d" by simp
  from convertDeclaration_serializable[OF this] obtain tool copy where
    c: "convertDeclaration stringify parse \<sigma> d = Inr (tool, \<sigma> @ [convertSchemaTypeToLowerCase copy])"
    and t: "tool_parameters tool = length \<sigma>" "tool_type tool = ''function''"
      "tool_name tool = orElse (decl_name d) ''unknown_function''"
      "tool_description tool = orElse (decl_description d) []"
    by blast
  let ?\<sigma>1 = "\<sigma> @ [convertSchemaTypeToLowerCase copy]"
  have "\<forall>d \<in> set ds. serializable stringify parse ?\<sigma>1 d"
    using Cons.prems serializable_append by auto
  from Cons.IH[OF this] obtain tools news where
    r: "convertDeclarations stringify parse ?\<sigma>1 ds = Inr (tools, ?\<sigma>1 @ news)"
    and l: "length tools = length ds" "length news = length ds"
    and e: "\<forall>i < length ds.
              tool_parameters (tools ! i) = length ?\<sigma>1 + i \<and>
              tool_type (tools ! i) = ''function'' \<and>
              tool_name (tools ! i) = orElse (decl_name (ds ! i)) ''unknown_function'' \<and>
              tool_description (tools ! i) = orElse (decl_description (ds ! i)) [] \<and>
              typesLowerCase (news ! i)"
    by blast
  let ?news = "convertSchemaTypeToLowerCase copy # news"
  have 1: "convertDeclarations stringify parse \<sigma> (d # ds) = Inr (tool # tools, \<sigma> @ ?news)"
    using c r by simp
  have 2: "tool_parameters ((tool # tools) ! i) = length \<sigma> + i \<and>
              tool_type ((tool # tools) ! i) = ''function'' \<and>
              tool_name ((tool # tools) ! i) = orElse (decl_name ((d # ds) ! i)) ''unknown_function'' \<and>
              tool_description ((tool # tools) ! i) = orElse (decl_description ((d # ds) ! i)) [] \<and>
              typesLowerCase (?news ! i)"
    if "i < length (d # ds)" for i
  proof (cases i)
    case 0
    then show ?thesis using t by (simp add: typesLowerCase_convert)
  next
    case (Suc j)
    then show ?thesis using e that by simp
  qed
  show ?case
    apply (rule exI[of _ "tool # tools"], rule exI[of _ ?news])
    using 1 2 l by simp
qed

text \<open>
  Claim C3. For every list of declarations (whose schemas can be serialised),
  \<open>convertToOpenAITools\<close> returns one tool per declaration; every object that was in the
  store before the call, so each declaration's schema, is unchanged after it; and the
  schema of each tool is a new object in which every \<open>type\<close> string, at every nested
  place, is lower case.
\<close>
theorem tools_are_lowercase_copies:
  assumes "\<forall>d \<in> set ds. serializable stringify parse \<sigma> d"
  shows "\<exists>tools \<sigma>'.
     convertToOpenAITools stringify parse \<sigma> (Some ds) = Inr (tools, \<sigma>') \<and>
     take (length \<sigma>) \<sigma>' = \<sigma> \<and>
     length tools = length ds \<and>
     (\<forall>i < length ds.
        length \<sigma> \<le> tool_parameters (tools ! i) \<and>
        tool_parameters (tools ! i) < length \<sigma>' \<and>
        typesLowerCase (\<sigma>' ! tool_parameters (tools ! i)))"
proof -
  from convertDeclarations_serializable[OF assms] obtain tools news where
    r: "convertDeclarations stringify parse \<sigma> ds = Inr (tools, \<sigma> @ news)"
    and l: "length tools = length ds" "length news = length ds"
    and e: "\<forall>i < length ds.
              tool_parameters (tools ! i) = length \<sigma> + i \<and>
              tool_type (tools ! i) = ''function'' \<and>
              tool_name (tools ! i) = orElse (decl_name (ds ! i)) ''unknown_function'' \<and>
              tool_description (tools ! i) = orElse (decl_description (ds ! i)) [] \<and>
              typesLowerCase (news ! i)"
    by blast
  show ?thesis
    apply (rule exI[of _ tools], rule exI[of _ "\<sigma> @ news"])
    using r l e by (simp add: convertToOpenAITools_def)
qed


lemma weather_serializable:
  "\<forall>d \<in> set weatherDeclarations. serializable JSON_stringify JSON_parse [weatherSchema] d"
  by code_simp

lemma weather_tools:
  "convertToOpenAITools JSON_stringify JSON_parse [weatherSchema] (Some weatherDeclarations) =
     Inr ([\<lparr>tool_type = ''function'', tool_name = ''get_weather'',
             tool_description = ''Weather for a city'', tool_parameters = 1\<rparr>,
           \<lparr>tool_type = ''function'', tool_name = ''unknown_function'',
             tool_description = [], tool_parameters = 2\<rparr>],
          [weatherSchema,
           JObj [(''type'', JStr ''object''),
                 (''properties'',
                  JObj [(''city'', JObj [(''type'', JStr ''string'')]),
                        (''days'', JObj [(''type'', JStr ''array''),
                                         (''items'', JObj [(''type'', JStr ''integer'')])]),
                        (''unit'', JObj [(''anyOf'', JArr [JObj [(''type'', JStr ''string'')],
                                                           JObj [(''type'', JStr ''null'')]])])]),
                 (''required'', JArr [JStr ''city''])],
           JObj []])"
  by code_simp

text \<open>Witness for C3: the schema at address 0 stays, and its lowered copy is at address 1.\<close>
theorem tools_are_lowercase_copies_witness:
  "\<exists>tools \<sigma>'.
     convertToOpenAITools JSON_stringify JSON_parse [weatherSchema] (Some weatherDeclarations) =
       Inr (tools, \<sigma>') \<and>
     \<sigma>' ! 0 = weatherSchema \<and>
     tool_parameters (tools ! 0) = 1 \<and>
     \<sigma>' ! 1 =
       JObj [(''type'', JStr ''object''),
             (''properties'',
              JObj [(''city'', JObj [(''type'', JStr ''string'')]),
                    (''days'', JObj [(''type'', JStr ''array''),
                                     (''items'', JObj [(''type'', JStr ''integer'')])]),
                    (''unit'', JObj [(''anyOf'', JArr [JObj [(''type'', JStr ''string'')],
                                                       JObj [(''type'', JStr ''null'')]])])]),
             (''required'', JArr [JStr ''city''])] \<and>
     typesLowerCase (\<sigma>' ! tool_parameters (tools ! 0)) \<and>
     typesLowerCase (\<sigma>' ! tool_parameters (tools ! 1))"
proof -
  from tools_are_lowercase_copies[OF weather_serializable] obtain tools \<sigma>' where
    r: "convertToOpenAITools JSON_stringify JSON_parse [weatherSchema] (Some weatherDeclarations) =
       Inr (tools, \<sigma>')"
    and k: "take (length [weatherSchema]) \<sigma>' = [weatherSchema]"
    and e: "\<forall>i < length weatherDeclarations.
        length [weatherSchema] \<le> tool_parameters (tools ! i) \<and>
        tool_parameters (tools ! i) < length \<sigma>' \<and>
        typesLowerCase (\<sigma>' ! tool_parameters (tools ! i))"
    by blast
  from e have e0: "typesLowerCase (\<sigma>' ! tool_parameters (tools ! 0))"
    and e1: "typesLowerCase (\<sigma>' ! tool_parameters (tools ! 1))"
    by (simp_all add: weatherDeclarations_def)
  from r weather_tools have "tools ! 0 = \<lparr>tool_type = ''function'', tool_name = ''get_weather'',
             tool_description = ''Weather for a city'', tool_parameters = 1\<rparr>"
    and s1: "\<sigma>' ! 1 = JObj [(''type'', JStr ''object''),
             (''properties'',
              JObj [(''city'', JObj [(''type'', JStr ''string'')]),
                    (''days'', JObj [(''type'', JStr ''array''),
                                     (''items'', JObj [(''type'', JStr ''integer'')])]),
                    (''unit'', JObj [(''anyOf'', JArr [JObj [(''type'', JStr ''string'')],
                                                       JObj [(''type'', JStr ''null'')]])])]),
             (''required'', JArr [JStr ''city''])]"
    and s0: "\<sigma>' ! 0 = weatherSchema"
    by auto
  then show ?thesis using r e0 e1 by auto
qed
section \<open>Properties of the tolerant JSON extraction\<close>


























end
